theory Spec2Isabelle
  imports
    Complex_Main
    "HOL-Library.Char_ord"
    "HOL-Library.Code_Target_Nat"
    "HOL-Library.List_Lexorder"
    "HOL-Library.Product_Lexorder"
begin

section \<open>Strings\<close>

text \<open>
  A Python \<^verbatim>\<open>str\<close> and a PostgreSQL \<^verbatim>\<open>TEXT\<close> value is the list of its Unicode code
  points. The literals of the source are ASCII; \<open>ascii\<close> gives their code points.
\<close>

type_synonym ustring = "nat list"

definition ascii :: "string \<Rightarrow> ustring" where
  "ascii s = map of_char s"

text \<open>
  The Unicode tables that the query analysis reads, which are part of Python and of the
  database, not of the repository, and are parameters of the model: the classes
  \<^verbatim>\<open>\s\<close>, \<^verbatim>\<open>\d\<close> and \<^verbatim>\<open>\w\<close> of the module \<^verbatim>\<open>re\<close> on a \<^verbatim>\<open>str\<close> pattern,
  \<^verbatim>\<open>str.lower\<close>, and \<^verbatim>\<open>LOWER\<close> under the collation of the database.
\<close>

record unicode_tables =
  is_space :: "nat \<Rightarrow> bool"
  is_digit :: "nat \<Rightarrow> bool"
  is_word_char :: "nat \<Rightarrow> bool"
  lower :: "ustring \<Rightarrow> ustring"
  pg_lower :: "ustring \<Rightarrow> ustring"

text \<open>
  \<^verbatim>\<open>str.upper\<close> on the name of a document type, which has lower-case ASCII letters and
  the underscore only.
\<close>

definition upper :: "ustring \<Rightarrow> ustring" where
  "upper s = map (\<lambda>c. if 97 \<le> c \<and> c \<le> 122 then c - 32 else c) s"

text \<open>\<^verbatim>\<open>s.startswith(p)\<close>.\<close>

definition startswith :: "ustring \<Rightarrow> ustring \<Rightarrow> bool" where
  "startswith s p = (take (length p) s = p)"

text \<open>Python's \<^verbatim>\<open>k in s\<close> on strings: \<open>k\<close> occurs in \<open>s\<close> as a contiguous substring.\<close>

fun is_in :: "ustring \<Rightarrow> ustring \<Rightarrow> bool" where
  "is_in k [] = (k = [])"
| "is_in k (c # s) = (startswith (c # s) k \<or> is_in k s)"

text \<open>
  \<^verbatim>\<open>s.zfill(n)\<close> on a string of digits (no sign): the digit zero on the left up to
  width \<open>n\<close>.
\<close>

definition zfill :: "nat \<Rightarrow> ustring \<Rightarrow> ustring" where
  "zfill n s = replicate (n - length s) 48 @ s"

section \<open>Regular expressions of the query analysis\<close>

text \<open>
  \<^verbatim>\<open>re.search(p, s)\<close> tries the pattern at every position of \<open>s\<close> from the left and
  returns the first match. A pattern is modelled by its matcher at the start of a string,
  which returns the group the caller reads.
\<close>

fun re_search :: "(ustring \<Rightarrow> 'a option) \<Rightarrow> ustring \<Rightarrow> 'a option" where
  "re_search m [] = m []"
| "re_search m (c # s) = (case m (c # s) of Some r \<Rightarrow> Some r | None \<Rightarrow> re_search m s)"

text \<open>A literal, and \<^verbatim>\<open>\s+\<close> (greedy: all the white space there is, at least one).\<close>

definition lit :: "ustring \<Rightarrow> ustring \<Rightarrow> ustring option" where
  "lit p s = (if startswith s p then Some (drop (length p) s) else None)"

definition ws1 :: "unicode_tables \<Rightarrow> ustring \<Rightarrow> ustring option" where
  "ws1 U s = (case s of [] \<Rightarrow> None
              | c # r \<Rightarrow> if is_space U c then Some (dropWhile (is_space U) s) else None)"

text \<open>
  In Python's tables no character is white space and also a digit or a word character, and
  the two quote characters are in none of the three classes. The matchers below follow the
  backtracking of \<^verbatim>\<open>re\<close> for such tables.
\<close>

text \<open>
  \<^verbatim>\<open>section\s+(\d+)\<close>, group 1. After the white space the next character must be a digit,
  and the digits are taken greedily.
\<close>

definition section_at :: "unicode_tables \<Rightarrow> ustring \<Rightarrow> ustring option" where
  "section_at U s =
     (case Option.bind (lit (ascii ''section'') s) (ws1 U) of
        None \<Rightarrow> None
      | Some r \<Rightarrow> (let ds = takeWhile (is_digit U) r in if ds = [] then None else Some ds))"

definition section_match :: "unicode_tables \<Rightarrow> ustring \<Rightarrow> ustring option" where
  "section_match U s = re_search (section_at U) s"

text \<open>
  \<^verbatim>\<open>(?:\s+\w+)*\<close>, greedy, returns the text it matches: as long as white space followed by
  a word character comes next, the white space and the whole word are consumed.
\<close>

function words_more :: "unicode_tables \<Rightarrow> ustring \<Rightarrow> ustring" where
  "words_more U s =
     (let sp = takeWhile (is_space U) s; r = dropWhile (is_space U) s;
          w = takeWhile (is_word_char U) r
      in if sp = [] \<or> w = [] then [] else sp @ w @ words_more U (dropWhile (is_word_char U) r))"
  by pat_completeness auto
termination
proof (relation "measure (\<lambda>(U, s). length s)")
  show "wf (measure (\<lambda>(U, s). length s))" by simp
next
  fix U :: unicode_tables and s sp r w :: ustring
  assume sp: "sp = takeWhile (is_space U) s" and r: "r = dropWhile (is_space U) s"
    and w: "w = takeWhile (is_word_char U) r" and ne: "\<not> (sp = [] \<or> w = [])"
  have "length (dropWhile (is_word_char U) r) \<le> length r"
    by (rule length_dropWhile_le)
  moreover have "length sp + length r = length s"
    unfolding sp r by (metis length_append takeWhile_dropWhile_id)
  moreover have "length sp \<noteq> 0" using ne by simp
  ultimately have "length (dropWhile (is_word_char U) r) < length s" by linarith
  then show "((U, dropWhile (is_word_char U) r), (U, s)) \<in> measure (\<lambda>(U, s). length s)"
    by simp
qed

text \<open>\<^verbatim>\<open>\w+(?:\s+\w+)*\<close> at the start of \<open>s\<close>: the text matched, \<open>[]\<close> when there is none.\<close>

definition words :: "unicode_tables \<Rightarrow> ustring \<Rightarrow> ustring" where
  "words U s =
     (let w = takeWhile (is_word_char U) s
      in if w = [] then [] else w @ words_more U (dropWhile (is_word_char U) s))"

text \<open>The double and the single quote.\<close>

definition is_quote :: "nat \<Rightarrow> bool" where
  "is_quote c = (c = 34 \<or> c = 39)"

text \<open>
  \<^verbatim>\<open>(["']?)(\w+(?:\s+\w+)*)\1\<close>, group 2. With an opening quote the same quote must
  follow the words; a shorter run of words is followed by white space or a word character,
  never by the quote, and without the quote the words cannot start at a quote character,
  so backtracking finds nothing else. Without an opening quote the back reference is empty.
\<close>

definition quoted_words :: "unicode_tables \<Rightarrow> ustring \<Rightarrow> ustring option" where
  "quoted_words U s =
     (case s of
        [] \<Rightarrow> None
      | c # r \<Rightarrow>
          if is_quote c then
            (let m = words U r
             in if m \<noteq> [] \<and> startswith (drop (length m) r) [c] then Some m else None)
          else (let m = words U s in if m \<noteq> [] then Some m else None))"

text \<open>
  The four \<^verbatim>\<open>term_patterns\<close> of the definition detection algorithm, each at the start
  of a string, in the order of the list (the flow document shows the first three).
\<close>

definition definition_of_at :: "unicode_tables \<Rightarrow> ustring \<Rightarrow> ustring option" where
  "definition_of_at U s =
     Option.bind (Option.bind (Option.bind (Option.bind
       (lit (ascii ''definition'') s) (ws1 U)) (lit (ascii ''of''))) (ws1 U)) (quoted_words U)"

definition define_at :: "unicode_tables \<Rightarrow> ustring \<Rightarrow> ustring option" where
  "define_at U s = Option.bind (Option.bind (lit (ascii ''define'') s) (ws1 U)) (quoted_words U)"

text \<open>
  \<^verbatim>\<open>what\s+is\s+(?:a\s+|an\s+)?...\<close>: the optional article is tried as \<^verbatim>\<open>a\<close>, then as
  \<^verbatim>\<open>an\<close>, then left out.
\<close>

definition what_is_at :: "unicode_tables \<Rightarrow> ustring \<Rightarrow> ustring option" where
  "what_is_at U s =
     (case Option.bind (Option.bind (Option.bind (lit (ascii ''what'') s) (ws1 U))
             (lit (ascii ''is''))) (ws1 U) of
        None \<Rightarrow> None
      | Some r \<Rightarrow>
          (case Option.bind (Option.bind (lit (ascii ''a'') r) (ws1 U)) (quoted_words U) of
             Some t \<Rightarrow> Some t
           | None \<Rightarrow>
               (case Option.bind (Option.bind (lit (ascii ''an'') r) (ws1 U)) (quoted_words U) of
                  Some t \<Rightarrow> Some t
                | None \<Rightarrow> quoted_words U r)))"

definition meaning_of_at :: "unicode_tables \<Rightarrow> ustring \<Rightarrow> ustring option" where
  "meaning_of_at U s =
     Option.bind (Option.bind (Option.bind (Option.bind
       (lit (ascii ''meaning'') s) (ws1 U)) (lit (ascii ''of''))) (ws1 U)) (quoted_words U)"

definition term_patterns :: "unicode_tables \<Rightarrow> (ustring \<Rightarrow> ustring option) list" where
  "term_patterns U =
     [re_search (definition_of_at U), re_search (define_at U), re_search (what_is_at U),
      re_search (meaning_of_at U)]"

section \<open>Query analysis\<close>

definition definition_keywords :: "ustring list" where
  "definition_keywords =
     map ascii [''definition'', ''define'', ''meaning'', ''means'', ''what is'', ''what does'']"

definition is_definition_query :: "unicode_tables \<Rightarrow> ustring \<Rightarrow> bool" where
  "is_definition_query U query =
     list_ex (\<lambda>keyword. is_in keyword (lower U query)) definition_keywords"

datatype intent = Definition ustring | Section ustring | General ustring

text \<open>
  Modelled from the spec: the loop over \<^verbatim>\<open>term_patterns\<close> (the source shows the list, not
  the loop that applies it). The patterns are tried in order on the lower-cased query, the
  first that matches gives the term (its group 2), and when none matches there is no term.
\<close>

fun first_match :: "(ustring \<Rightarrow> ustring option) list \<Rightarrow> ustring \<Rightarrow> ustring option" where
  "first_match [] s = None"
| "first_match (p # ps) s = (case p s of Some t \<Rightarrow> Some t | None \<Rightarrow> first_match ps s)"

text \<open>
  Modelled from the spec: the intent of a query that takes the definition branch (the
  source shows the step that extracts the term, not what follows when no term is found).
  With a term it is a definition query; without one it degrades to a general query.
\<close>

definition definition_intent :: "unicode_tables \<Rightarrow> ustring \<Rightarrow> intent" where
  "definition_intent U query =
     (case first_match (term_patterns U) (lower U query) of
        Some t \<Rightarrow> Definition t
      | None \<Rightarrow> General query)"

text \<open>
  The decision of the query analysis. The definition branch is guarded by
  \<^verbatim>\<open>if is_definition_query and not section_match:\<close> (the decision tree of the flow
  document names the definition test first and leaves the guard out); a query with a
  section number is a section query, with the number
  \<^verbatim>\<open>section_match.group(1).zfill(3)\<close>; any other query is general.
\<close>

definition classify :: "unicode_tables \<Rightarrow> ustring \<Rightarrow> intent" where
  "classify U query =
     (if is_definition_query U query \<and> section_match U (lower U query) = None
      then definition_intent U query
      else
        (case section_match U (lower U query) of
           Some ds \<Rightarrow> Section (zfill 3 ds)
         | None \<Rightarrow> General query))"

section \<open>The governance schema\<close>

datatype chunk_role_enum = Parent | Child

datatype document_type_enum =
    Act | Rule | Regulation | Order | Notification | Circular | Sop | Form | Guideline
  | Practice_note | Commentary | Textbook | Qa_book | Schedule | Register | Return | Qa | Other

datatype authority_level_enum = Statutory | Interpretive | Procedural | Commentary_level

datatype relationship_type_enum =
    Part_of | Precedes | Clarifies | Proceduralises | Proceduralised_by | Implements
  | Implemented_by | Amends | Amended_by | Supersedes | Superseded_by

datatype lifecycle_status_enum = DRAFT | ACTIVE | RETIRED

datatype retrieval_priority_enum = P1 | P2 | P3 | P4

text \<open>The position of a priority in its enum, which is how PostgreSQL orders it.\<close>

fun priority_num :: "retrieval_priority_enum \<Rightarrow> nat" where
  "priority_num P1 = 1"
| "priority_num P2 = 2"
| "priority_num P3 = 3"
| "priority_num P4 = 4"

fun document_type_str :: "document_type_enum \<Rightarrow> ustring" where
  "document_type_str Act = ascii ''act''"
| "document_type_str Rule = ascii ''rule''"
| "document_type_str Regulation = ascii ''regulation''"
| "document_type_str Order = ascii ''order''"
| "document_type_str Notification = ascii ''notification''"
| "document_type_str Circular = ascii ''circular''"
| "document_type_str Sop = ascii ''sop''"
| "document_type_str Form = ascii ''form''"
| "document_type_str Guideline = ascii ''guideline''"
| "document_type_str Practice_note = ascii ''practice_note''"
| "document_type_str Commentary = ascii ''commentary''"
| "document_type_str Textbook = ascii ''textbook''"
| "document_type_str Qa_book = ascii ''qa_book''"
| "document_type_str Schedule = ascii ''schedule''"
| "document_type_str Register = ascii ''register''"
| "document_type_str Return = ascii ''return''"
| "document_type_str Qa = ascii ''qa''"
| "document_type_str Other = ascii ''other''"

text \<open>
  A row of \<^verbatim>\<open>chunks_identity\<close>, its columns under the alias \<^verbatim>\<open>ci\<close> of the queries
  (\<^verbatim>\<open>created_at\<close> is left out). A nullable column is an option.
\<close>

record chunks_identity =
  ci_chunk_id :: ustring
  ci_chunk_role :: chunk_role_enum
  ci_parent_chunk_id :: "ustring option"
  ci_document_type :: document_type_enum
  ci_authority_level :: authority_level_enum
  ci_binding :: bool
  ci_act :: "ustring option"
  ci_section :: "ustring option"
  ci_sub_section :: "ustring option"
  ci_page_number :: "int option"

text \<open>
  A chunk as the retrieval queries see it: its identity row joined on \<^verbatim>\<open>chunk_id\<close> with its
  rows of \<^verbatim>\<open>chunks_content\<close> (\<^verbatim>\<open>cc\<close>), \<^verbatim>\<open>chunk_retrieval_rules\<close> (\<^verbatim>\<open>crr\<close>),
  \<^verbatim>\<open>chunk_refusal_policy\<close> (\<^verbatim>\<open>crp\<close>), \<^verbatim>\<open>chunk_lifecycle\<close> (\<^verbatim>\<open>cl\<close>) and
  \<^verbatim>\<open>chunk_embeddings\<close> (\<^verbatim>\<open>ce\<close>). Every chunk of the model has these rows, and its
  text is not NULL, as ingestion writes them.
\<close>

record chunk = chunks_identity +
  cc_title :: "ustring option"
  cc_compliance_area :: "ustring option"
  cc_text :: ustring
  cc_citation :: "ustring option"
  crr_priority :: retrieval_priority_enum
  crr_requires_parent_law :: bool
  crp_can_answer_standalone :: bool
  crp_must_reference_parent_law :: bool
  crp_refuse_if_parent_missing :: bool
  cl_status :: lifecycle_status_enum
  ce_enabled :: bool

subsection \<open>Writing \<^verbatim>\<open>chunks_identity\<close>\<close>

text \<open>The table's \<^verbatim>\<open>CHECK\<close> constraint \<^verbatim>\<open>parent_child_consistency\<close>.\<close>

definition parent_child_consistency :: "chunks_identity \<Rightarrow> bool" where
  "parent_child_consistency r =
     ((ci_chunk_role r = Parent \<and> ci_parent_chunk_id r = None)
      \<or> (ci_chunk_role r = Child \<and> ci_parent_chunk_id r \<noteq> None))"

datatype db_error = Check_violation | Unique_violation | Foreign_key_violation

text \<open>
  The foreign key \<^verbatim>\<open>parent_chunk_id REFERENCES chunks_identity(chunk_id)\<close>, on a whole
  table: every parent named is a row of the table.
\<close>

definition references_ok :: "chunks_identity list \<Rightarrow> bool" where
  "references_ok tbl =
     list_all (\<lambda>r. case ci_parent_chunk_id r of
                      None \<Rightarrow> True
                    | Some p \<Rightarrow> p \<in> set (map ci_chunk_id tbl)) tbl"

text \<open>
  A statement that writes the table. PostgreSQL checks the new row against the
  \<^verbatim>\<open>CHECK\<close> constraint first, then the primary key, then the foreign key at the end of the
  statement; a statement that fails leaves the table as it was.
\<close>

datatype write_op =
    Insert chunks_identity
  | Update ustring chunks_identity
  | Delete ustring

definition insert_row :: "chunks_identity \<Rightarrow> chunks_identity list \<Rightarrow> db_error + chunks_identity list" where
  "insert_row r tbl =
     (if \<not> parent_child_consistency r then Inl Check_violation
      else if ci_chunk_id r \<in> set (map ci_chunk_id tbl) then Inl Unique_violation
      else if \<not> references_ok (tbl @ [r]) then Inl Foreign_key_violation
      else Inr (tbl @ [r]))"

text \<open>\<^verbatim>\<open>UPDATE chunks_identity SET ... WHERE chunk_id = cid\<close>, the new row given whole.\<close>

definition update_row ::
  "ustring \<Rightarrow> chunks_identity \<Rightarrow> chunks_identity list \<Rightarrow> db_error + chunks_identity list" where
  "update_row cid r tbl =
     (let tbl' = map (\<lambda>x. if ci_chunk_id x = cid then r else x) tbl in
      if cid \<notin> set (map ci_chunk_id tbl) then Inr tbl
      else if \<not> parent_child_consistency r then Inl Check_violation
      else if \<not> distinct (map ci_chunk_id tbl') then Inl Unique_violation
      else if \<not> references_ok tbl' then Inl Foreign_key_violation
      else Inr tbl')"

definition delete_row :: "ustring \<Rightarrow> chunks_identity list \<Rightarrow> db_error + chunks_identity list" where
  "delete_row cid tbl =
     (let tbl' = filter (\<lambda>x. ci_chunk_id x \<noteq> cid) tbl in
      if \<not> references_ok tbl' then Inl Foreign_key_violation else Inr tbl')"

fun apply_write :: "write_op \<Rightarrow> chunks_identity list \<Rightarrow> db_error + chunks_identity list" where
  "apply_write (Insert r) tbl = insert_row r tbl"
| "apply_write (Update cid r) tbl = update_row cid r tbl"
| "apply_write (Delete cid) tbl = delete_row cid tbl"

definition exec_write :: "write_op \<Rightarrow> chunks_identity list \<Rightarrow> chunks_identity list" where
  "exec_write w tbl = (case apply_write w tbl of Inl e \<Rightarrow> tbl | Inr tbl' \<Rightarrow> tbl')"

definition exec_writes :: "write_op list \<Rightarrow> chunks_identity list \<Rightarrow> chunks_identity list" where
  "exec_writes ws tbl = foldl (\<lambda>t w. exec_write w t) tbl ws"

text \<open>The identity invariant of a table.\<close>

definition identity_invariant :: "chunks_identity list \<Rightarrow> bool" where
  "identity_invariant tbl =
     (\<forall>r\<in>set tbl. (ci_chunk_role r = Parent \<longleftrightarrow> ci_parent_chunk_id r = None)
                  \<and> (ci_chunk_role r = Child \<longleftrightarrow> ci_parent_chunk_id r \<noteq> None))"

section \<open>Direct lookup\<close>

text \<open>
  The store is the list of chunks in the order a sequential scan returns them; rows that
  an \<^verbatim>\<open>ORDER BY\<close> leaves equal come in that order (SQL leaves it open).
\<close>

text \<open>\<^verbatim>\<open>CASE WHEN ci.chunk_role = 'parent' THEN 0 ELSE 1 END\<close>.\<close>

definition role_rank :: "chunk_role_enum \<Rightarrow> nat" where
  "role_rank r = (if r = Parent then 0 else 1)"

definition section_order_key :: "chunk \<Rightarrow> nat \<times> ustring" where
  "section_order_key c = (role_rank (ci_chunk_role c), ci_chunk_id c)"

text \<open>
  Step 6b, the rows of
  \<^verbatim>\<open>SELECT ci.chunk_id FROM chunks_identity ci WHERE ci.section = %s ORDER BY CASE ..., ci.chunk_id LIMIT %s\<close>
  with the parameters \<^verbatim>\<open>(section_num, top_k)\<close>. A NULL section equals nothing. Text is
  compared and ordered character by character.
\<close>

definition section_lookup_rows :: "chunk list \<Rightarrow> ustring \<Rightarrow> nat \<Rightarrow> chunk list" where
  "section_lookup_rows store section_num top_k =
     take top_k (sort_key section_order_key
       (filter (\<lambda>c. ci_section c = Some section_num) store))"

definition direct_section_lookup :: "chunk list \<Rightarrow> ustring \<Rightarrow> nat \<Rightarrow> ustring list" where
  "direct_section_lookup store section_num top_k =
     map ci_chunk_id (section_lookup_rows store section_num top_k)"

text \<open>
  PostgreSQL's \<^verbatim>\<open>LIKE\<close>: \<^verbatim>\<open>%\<close> matches any run of characters, \<^verbatim>\<open>_\<close> any one
  character, and a backslash makes the next pattern character literal. A pattern that ends
  in a lone backslash is an error there; the patterns built below end in \<^verbatim>\<open>%\<close>, so the
  case is not reached, and the model answers False.
\<close>

fun like_match :: "ustring \<Rightarrow> ustring \<Rightarrow> bool" where
  "like_match [] s = (s = [])"
| "like_match (p # ps) s =
     (if p = 37 then
        (like_match ps s \<or> (case s of [] \<Rightarrow> False | x # xs \<Rightarrow> like_match (p # ps) xs))
      else if p = 95 then
        (case s of [] \<Rightarrow> False | x # xs \<Rightarrow> like_match ps xs)
      else if p = 92 then
        (case ps of
           [] \<Rightarrow> False
         | q # qs \<Rightarrow> (case s of [] \<Rightarrow> False | x # xs \<Rightarrow> x = q \<and> like_match qs xs))
      else (case s of [] \<Rightarrow> False | x # xs \<Rightarrow> x = p \<and> like_match ps xs))"

text \<open>
  Step 5b, the rows of the definition query: section 002 of the Act, the lower-cased text
  \<^verbatim>\<open>LIKE\<close> the pattern \<^verbatim>\<open>f'%{term.lower()}%'\<close>,
  \<^verbatim>\<open>ORDER BY chunk_role = 'parent' DESC LIMIT 5\<close> (the technical implementation of the
  definition detection gives the statement with this \<^verbatim>\<open>ORDER BY\<close>, the flow document
  without it). The term is lower-cased by Python, the text by the database. \<^verbatim>\<open>DESC\<close> on
  a Boolean puts the parents first; rows with equal keys keep the order of the store.
\<close>

definition definition_pattern :: "unicode_tables \<Rightarrow> ustring \<Rightarrow> ustring" where
  "definition_pattern U term = [37] @ lower U term @ [37]"

definition definition_lookup_rows :: "unicode_tables \<Rightarrow> chunk list \<Rightarrow> ustring \<Rightarrow> chunk list" where
  "definition_lookup_rows U store term =
     take 5 (sort_key (\<lambda>c. role_rank (ci_chunk_role c))
       (filter (\<lambda>c. ci_section c = Some (ascii ''002'') \<and> ci_document_type c = Act
                     \<and> like_match (definition_pattern U term) (pg_lower U (cc_text c))) store))"

definition direct_definition_lookup :: "unicode_tables \<Rightarrow> chunk list \<Rightarrow> ustring \<Rightarrow> ustring list" where
  "direct_definition_lookup U store term =
     map ci_chunk_id (definition_lookup_rows U store term)"

text \<open>The characters with a special meaning in a \<^verbatim>\<open>LIKE\<close> pattern.\<close>

definition like_special :: "nat \<Rightarrow> bool" where
  "like_special c = (c = 37 \<or> c = 95 \<or> c = 92)"

section \<open>Vector search\<close>

datatype py_error = IndexError | Answer_generation_failed

text \<open>
  \<^verbatim>\<open>xs[i]\<close> on a Python list: a negative index counts from the end, an index out of range
  raises \<^verbatim>\<open>IndexError\<close>.
\<close>

definition py_index :: "'a list \<Rightarrow> int \<Rightarrow> py_error + 'a" where
  "py_index xs i =
     (if 0 \<le> i \<and> i < int (length xs) then Inr (xs ! nat i)
      else if i < 0 \<and> - int (length xs) \<le> i then Inr (xs ! nat (int (length xs) + i))
      else Inl IndexError)"

text \<open>
  The collaborators of \<^verbatim>\<open>search_vectors\<close>: the embedding call (\<open>None\<close> when the request
  fails or times out), the search of the FAISS index, which returns the pairs of
  \<^verbatim>\<open>distances[0]\<close> and \<^verbatim>\<open>indices[0]\<close>, and the list loaded from \<^verbatim>\<open>metadata.json\<close>
  with the chunk id of every vector. Distances are real numbers here, not 32-bit floats.
\<close>

record vector_store =
  embed :: "ustring \<Rightarrow> real list option"
  index_search :: "real list \<Rightarrow> nat \<Rightarrow> (real \<times> int) list"
  metadata :: "ustring list"

text \<open>\<^verbatim>\<open>1 - (distances[0][i] / 2)\<close>.\<close>

definition similarity_of_distance :: "real \<Rightarrow> real" where
  "similarity_of_distance d = 1 - d / 2"

text \<open>Step 7a.3, the list of results: the chunk id and the similarity score of every hit.\<close>

fun map_hits :: "ustring list \<Rightarrow> (real \<times> int) list \<Rightarrow> py_error + (ustring \<times> real) list" where
  "map_hits md [] = Inr []"
| "map_hits md ((d, idx) # rest) =
     (case py_index md idx of
        Inl e \<Rightarrow> Inl e
      | Inr cid \<Rightarrow>
          (case map_hits md rest of
             Inl e \<Rightarrow> Inl e
           | Inr hs \<Rightarrow> Inr ((cid, similarity_of_distance d) # hs)))"

text \<open>
  Modelled from the spec: the result of \<^verbatim>\<open>search_vectors\<close> when the embedding call fails
  or times out (the source shows the request, not its error handling): the empty list, and
  no error.
\<close>

definition embedding_unavailable :: "py_error + (ustring \<times> real) list" where
  "embedding_unavailable = Inr []"

text \<open>\<^verbatim>\<open>search_vectors(query, top_k)\<close>: steps 7a.1 to 7a.3.\<close>

definition search_vectors ::
  "vector_store \<Rightarrow> ustring \<Rightarrow> nat \<Rightarrow> py_error + (ustring \<times> real) list" where
  "search_vectors vs query top_k =
     (case embed vs query of
        None \<Rightarrow> embedding_unavailable
      | Some query_embedding \<Rightarrow> map_hits (metadata vs) (index_search vs query_embedding top_k))"

section \<open>Chunk details\<close>

text \<open>
  \<^verbatim>\<open>get_chunk_details(chunk_ids)\<close>, the retrieval query:
  \<^verbatim>\<open>WHERE ci.chunk_id = ANY(%s) ORDER BY crr.priority, ci.section\<close>. A NULL section sorts
  last; rows with equal keys keep the order of the store.
\<close>

definition details_order_key :: "chunk \<Rightarrow> nat \<times> nat \<times> ustring" where
  "details_order_key c =
     (priority_num (crr_priority c),
      (case ci_section c of None \<Rightarrow> (1, []) | Some s \<Rightarrow> (0, s)))"

definition get_chunk_details :: "chunk list \<Rightarrow> ustring list \<Rightarrow> chunk list" where
  "get_chunk_details store chunk_ids =
     sort_key details_order_key (filter (\<lambda>c. ci_chunk_id c \<in> set chunk_ids) store)"

section \<open>Answer generation\<close>

text \<open>How an f-string prints a value that may be \<^verbatim>\<open>None\<close>.\<close>

definition py_str :: "ustring option \<Rightarrow> ustring" where
  "py_str v = (case v of None \<Rightarrow> ascii ''None'' | Some s \<Rightarrow> s)"

definition newline :: ustring where
  "newline = [10]"

text \<open>\<^verbatim>\<open>citation = f"Section {section}"\<close>.\<close>

definition citation_of :: "chunk \<Rightarrow> ustring" where
  "citation_of c = ascii ''Section '' @ py_str (ci_section c)"

text \<open>One element of \<^verbatim>\<open>context_parts\<close>: \<^verbatim>\<open>f"[{doc_type}] {citation}: {title}\n{text}"\<close>.\<close>

definition context_part :: "chunk \<Rightarrow> ustring" where
  "context_part c =
     ascii ''['' @ upper (document_type_str (ci_document_type c)) @ ascii ''] '' @ citation_of c
       @ ascii '': ''
       @ py_str (cc_title c) @ newline @ cc_text c"

text \<open>\<^verbatim>\<open>sep.join(parts)\<close>.\<close>

fun join :: "ustring \<Rightarrow> ustring list \<Rightarrow> ustring" where
  "join sep [] = []"
| "join sep [p] = p"
| "join sep (p # q # ps) = p @ sep @ join sep (q # ps)"

definition context_separator :: ustring where
  "context_separator = newline @ newline @ ascii ''---'' @ newline @ newline"

text \<open>
  Step 8: \<^verbatim>\<open>context = "\n\n---\n\n".join(context_parts)[:limit]\<close>, the chunks in the order
  they are given.
\<close>

definition build_context :: "nat \<Rightarrow> chunk list \<Rightarrow> ustring" where
  "build_context limit context_chunks =
     take limit (join context_separator (map context_part context_chunks))"

text \<open>The limit of the context: 8000 characters at first, 6000 since the optimisation.\<close>

definition context_limit :: nat where
  "context_limit = 6000"

record answer_result =
  answer :: ustring
  citations :: "ustring list"

text \<open>
  Modelled from the spec: the outcome of \<^verbatim>\<open>generate_answer\<close> when the request to the
  language model times out or its status is not 200 (the source shows the branch of
  status 200 only): the error \<^verbatim>\<open>answer_generation_failed\<close>, and no partial text.
\<close>

definition generation_failed :: "py_error + answer_result" where
  "generation_failed = Inl Answer_generation_failed"

text \<open>
  \<^verbatim>\<open>generate_answer(query, context_chunks)\<close>. The language model is a collaborator: from the
  query and the context, which the fixed prompt embeds, it returns the text of the
  response, or \<open>None\<close> when the request fails. The citations are those collected with the
  context; those read back out of the answer text are not modelled.
\<close>

definition generate_answer ::
  "(ustring \<Rightarrow> ustring \<Rightarrow> ustring option) \<Rightarrow> ustring \<Rightarrow> chunk list
     \<Rightarrow> py_error + answer_result" where
  "generate_answer llm query context_chunks =
     (case llm query (build_context context_limit context_chunks) of
        None \<Rightarrow> generation_failed
      | Some answer_text \<Rightarrow>
          Inr \<lparr>answer = answer_text, citations = map citation_of context_chunks\<rparr>)"

section \<open>The response\<close>

datatype source_type = Direct_lookup | Supplementary

text \<open>An element of \<^verbatim>\<open>retrieved_chunks\<close>.\<close>

record retrieved_chunk =
  rc_chunk_id :: ustring
  rc_section :: "ustring option"
  rc_document_type :: document_type_enum
  rc_text :: ustring
  rc_title :: "ustring option"
  rc_compliance_area :: "ustring option"
  rc_priority :: retrieval_priority_enum
  rc_authority_level :: authority_level_enum
  rc_citation :: "ustring option"
  rc_similarity_score :: real
  rc_source_type :: "source_type option"

text \<open>
  Step 12, one chunk of the response: the text is \<^verbatim>\<open>chunk['text'][:500] + '...'\<close> and the
  score \<^verbatim>\<open>score_map.get(chunk['chunk_id'], 1.0)\<close>. The source type is set on the section
  path only.
\<close>

definition format_chunk ::
  "(ustring \<rightharpoonup> real) \<Rightarrow> source_type option \<Rightarrow> chunk \<Rightarrow> retrieved_chunk" where
  "format_chunk score_map src c =
     \<lparr>rc_chunk_id = ci_chunk_id c, rc_section = ci_section c,
      rc_document_type = ci_document_type c, rc_text = take 500 (cc_text c) @ ascii ''...'',
      rc_title = cc_title c, rc_compliance_area = cc_compliance_area c,
      rc_priority = crr_priority c, rc_authority_level = ci_authority_level c,
      rc_citation = cc_citation c,
      rc_similarity_score = (case score_map (ci_chunk_id c) of None \<Rightarrow> 1 | Some s \<Rightarrow> s),
      rc_source_type = src\<rparr>"

definition format_chunks ::
  "(ustring \<rightharpoonup> real) \<Rightarrow> source_type option \<Rightarrow> chunk list \<Rightarrow> retrieved_chunk list" where
  "format_chunks score_map src chunk_details = map (format_chunk score_map src) chunk_details"

text \<open>The scores of the vector results by chunk id, a later result replacing an earlier one.\<close>

definition score_map_of :: "(ustring \<times> real) list \<Rightarrow> (ustring \<rightharpoonup> real)" where
  "score_map_of vector_results = map_of (rev vector_results)"

record response =
  r_answer :: ustring
  r_citations :: "ustring list"
  retrieved_chunks :: "retrieved_chunk list"
  direct_lookup_count :: "nat option"
  supplementary_count :: "nat option"

section \<open>The query pipeline\<close>

text \<open>
  Path A, a definition query: the chunks of the direct lookup, their details, the answer;
  no vector search.
\<close>

definition definition_path ::
  "unicode_tables \<Rightarrow> chunk list \<Rightarrow> (ustring \<Rightarrow> ustring \<Rightarrow> ustring option) \<Rightarrow> ustring \<Rightarrow> ustring
     \<Rightarrow> py_error + response" where
  "definition_path U store llm user_query term =
     (let chunk_details = get_chunk_details store (direct_definition_lookup U store term)
      in case generate_answer llm user_query chunk_details of
           Inl e \<Rightarrow> Inl e
         | Inr answer_result \<Rightarrow>
             Inr \<lparr>r_answer = answer answer_result, r_citations = citations answer_result,
                  retrieved_chunks = format_chunks Map.empty None chunk_details,
                  direct_lookup_count = None, supplementary_count = None\<rparr>)"

text \<open>
  Path B, a section query, after the optimisation of the section flow: the answer is
  generated once, from the chunks of the direct lookup; the vector search then adds the
  supplementary chunks to the response.
\<close>

definition section_path ::
  "chunk list \<Rightarrow> vector_store \<Rightarrow> (ustring \<Rightarrow> ustring \<Rightarrow> ustring option) \<Rightarrow> ustring \<Rightarrow> ustring
     \<Rightarrow> nat \<Rightarrow> py_error + response" where
  "section_path store vs llm user_query section_num top_k =
     (let chunk_details = get_chunk_details store (direct_section_lookup store section_num top_k)
      in case generate_answer llm user_query chunk_details of
           Inl e \<Rightarrow> Inl e
         | Inr answer_result \<Rightarrow>
             (case search_vectors vs user_query top_k of
                Inl e \<Rightarrow> Inl e
              | Inr vector_results \<Rightarrow>
                  (let direct_chunks = format_chunks Map.empty (Some Direct_lookup) chunk_details;
                       supplementary_chunks =
                         format_chunks (score_map_of vector_results) (Some Supplementary)
                           (get_chunk_details store (map fst vector_results))
                   in Inr \<lparr>r_answer = answer answer_result, r_citations = citations answer_result,
                           retrieved_chunks = direct_chunks @ supplementary_chunks,
                           direct_lookup_count = Some (length direct_chunks),
                           supplementary_count = Some (length supplementary_chunks)\<rparr>)))"

text \<open>Path C, a general query: the vector search, the details of its chunks, the answer.\<close>

definition general_path ::
  "chunk list \<Rightarrow> vector_store \<Rightarrow> (ustring \<Rightarrow> ustring \<Rightarrow> ustring option) \<Rightarrow> ustring \<Rightarrow> nat
     \<Rightarrow> py_error + response" where
  "general_path store vs llm user_query top_k =
     (case search_vectors vs user_query top_k of
        Inl e \<Rightarrow> Inl e
      | Inr vector_results \<Rightarrow>
          (let chunk_details = get_chunk_details store (map fst vector_results)
           in case generate_answer llm user_query chunk_details of
                Inl e \<Rightarrow> Inl e
              | Inr answer_result \<Rightarrow>
                  Inr \<lparr>r_answer = answer answer_result, r_citations = citations answer_result,
                       retrieved_chunks =
                         format_chunks (score_map_of vector_results) None chunk_details,
                       direct_lookup_count = None, supplementary_count = None\<rparr>))"

text \<open>
  \<^verbatim>\<open>query(user_query, top_k)\<close>: the path the query analysis selects. The source shows no
  other branch of a path (none for a direct lookup that finds nothing), and the model has
  none.
\<close>

definition query ::
  "unicode_tables \<Rightarrow> chunk list \<Rightarrow> vector_store \<Rightarrow> (ustring \<Rightarrow> ustring \<Rightarrow> ustring option)
     \<Rightarrow> ustring \<Rightarrow> nat \<Rightarrow> py_error + response" where
  "query U store vs llm user_query top_k =
     (case classify U user_query of
        Definition term \<Rightarrow> definition_path U store llm user_query term
      | Section section_num \<Rightarrow> section_path store vs llm user_query section_num top_k
      | General q \<Rightarrow> general_path store vs llm q top_k)"

section \<open>The refusal policy\<close>








section \<open>The orchestrator\<close>




section \<open>Example data\<close>

text \<open>
  An example of the tables: the white space of \<^verbatim>\<open>\s\<close>, and the digits, the word
  characters and the lower-casing of Python on the code points below 256, which
  \<^verbatim>\<open>LOWER\<close> follows.
\<close>

definition py_space :: "nat \<Rightarrow> bool" where
  "py_space c =
     (c \<in> set [9, 10, 11, 12, 13, 28, 29, 30, 31, 32, 133, 160, 5760, 8192, 8193, 8194,
                 8195, 8196, 8197, 8198, 8199, 8200, 8201, 8202, 8232, 8233, 8239, 8287,
                 12288])"

definition latin1_word :: "nat \<Rightarrow> bool" where
  "latin1_word c =
     ((48 \<le> c \<and> c \<le> 57) \<or> (65 \<le> c \<and> c \<le> 90) \<or> c = 95 \<or> (97 \<le> c \<and> c \<le> 122)
      \<or> c \<in> set [170, 178, 179, 181, 185, 186, 188, 189, 190]
      \<or> (192 \<le> c \<and> c \<le> 255 \<and> c \<noteq> 215 \<and> c \<noteq> 247))"

definition latin1_lower :: "nat \<Rightarrow> nat" where
  "latin1_lower c =
     (if (65 \<le> c \<and> c \<le> 90) \<or> (192 \<le> c \<and> c \<le> 222 \<and> c \<noteq> 215) then c + 32 else c)"

definition latin1_tables :: unicode_tables where
  "latin1_tables =
     \<lparr>is_space = py_space, is_digit = (\<lambda>c. 48 \<le> c \<and> c \<le> 57), is_word_char = latin1_word,
      lower = map latin1_lower, pg_lower = map latin1_lower\<rparr>"

text \<open>Example rows: a parent, one of its children, and a row the constraint rejects.\<close>

definition identity_parent :: chunks_identity where
  "identity_parent =
     \<lparr>ci_chunk_id = ascii ''chunk_abc123'', ci_chunk_role = Parent, ci_parent_chunk_id = None,
      ci_document_type = Circular, ci_authority_level = Interpretive, ci_binding = False,
      ci_act = Some (ascii ''Companies Act 2013''), ci_section = Some (ascii ''135''), ci_sub_section = None,
      ci_page_number = None\<rparr>"

definition identity_child :: chunks_identity where
  "identity_child =
     identity_parent\<lparr>ci_chunk_id := ascii ''chunk_abc123_c01'', ci_chunk_role := Child,
       ci_parent_chunk_id := Some (ascii ''chunk_abc123'')\<rparr>"

definition identity_rejected :: chunks_identity where
  "identity_rejected =
     identity_parent\<lparr>ci_chunk_id := ascii ''chunk_abc123_c02'', ci_chunk_role := Child\<rparr>"

text \<open>Example chunks: section 17 of the Act with one child still in draft.\<close>

definition section17_parent :: chunk where
  "section17_parent =
     \<lparr>ci_chunk_id = ascii ''ca2013_act_s017'', ci_chunk_role = Parent, ci_parent_chunk_id = None,
      ci_document_type = Act, ci_authority_level = Statutory, ci_binding = True,
      ci_act = Some (ascii ''Companies Act 2013''), ci_section = Some (ascii ''017''), ci_sub_section = None,
      ci_page_number = None,
      cc_title = Some (ascii ''Service of documents''), cc_compliance_area = None,
      cc_text = ascii ''A company shall send copies of its memorandum and articles to a member.'',
      cc_citation = Some (ascii ''Section 17''), crr_priority = P1, crr_requires_parent_law = False,
      crp_can_answer_standalone = True, crp_must_reference_parent_law = False,
      crp_refuse_if_parent_missing = False, cl_status = ACTIVE, ce_enabled = False\<rparr>"

definition section17_child :: chunk where
  "section17_child =
     section17_parent\<lparr>ci_chunk_id := ascii ''ca2013_act_s017_c01'', ci_chunk_role := Child,
       ci_parent_chunk_id := Some (ascii ''ca2013_act_s017''), cl_status := DRAFT, ce_enabled := True\<rparr>"

text \<open>Example chunks: section 2 of the Act with one child still in draft.\<close>

definition section2_parent :: chunk where
  "section2_parent =
     section17_parent\<lparr>ci_chunk_id := ascii ''ca2013_act_s002'', ci_section := Some (ascii ''002''),
       cc_title := Some (ascii ''Definitions''),
       cc_text := ascii ''(56) memorandum means the memorandum of association of a company'',
       cc_citation := Some (ascii ''Section 2'')\<rparr>"

definition section2_child :: chunk where
  "section2_child =
     section2_parent\<lparr>ci_chunk_id := ascii ''ca2013_act_s002_c01'', ci_chunk_role := Child,
       ci_parent_chunk_id := Some (ascii ''ca2013_act_s002''),
       cc_text := ascii ''(56) Memorandum means the memorandum of association'',
       cl_status := DRAFT, ce_enabled := True\<rparr>"

text \<open>An example chunk with a text of 600 characters.\<close>

definition long_chunk :: chunk where
  "long_chunk =
     section17_parent\<lparr>ci_chunk_id := ascii ''ca2013_act_s135'', ci_section := Some (ascii ''135''),
       cc_text := replicate 600 120\<rparr>"

text \<open>
  Example vector stores with one vector, that of the draft child of section 17: at the
  distance 1/2 of every query, and at the distance 3.
\<close>

definition near_store :: vector_store where
  "near_store =
     \<lparr>embed = (\<lambda>q. Some [1, 0]), index_search = (\<lambda>v k. [(1 / 2, 0)]),
      metadata = [ascii ''ca2013_act_s017_c01'']\<rparr>"

definition far_store :: vector_store where
  "far_store = near_store\<lparr>index_search := (\<lambda>v k. [(3, 0)])\<rparr>"

text \<open>An example chunk whose text alone is longer than the context limit.\<close>

definition oversize_chunk :: chunk where
  "oversize_chunk = long_chunk\<lparr>cc_text := replicate 7000 120\<rparr>"

text \<open>An example language model: it answers with the context it is given.\<close>

definition echo_llm :: "ustring \<Rightarrow> ustring \<Rightarrow> ustring option" where
  "echo_llm q context = Some context"

text \<open>An example vector store whose embedding service is down.\<close>

definition down_store :: vector_store where
  "down_store = near_store\<lparr>embed := (\<lambda>q. None)\<rparr>"





section \<open>Properties of the query analysis\<close>

lemma startswith_iff: "startswith s k \<longleftrightarrow> (\<exists>b. s = k @ b)"
  unfolding startswith_def
  by (metis append_eq_conv_conj append_take_drop_id)

lemma is_in_iff: "is_in k s \<longleftrightarrow> (\<exists>a b. s = a @ k @ b)"
proof (induction s)
  case Nil
  then show ?case by auto
next
  case (Cons c s)
  have "(\<exists>a b. c # s = a @ k @ b) \<longleftrightarrow> (\<exists>b. c # s = k @ b) \<or> (\<exists>a b. s = a @ k @ b)"
  proof
    assume "\<exists>a b. c # s = a @ k @ b"
    then obtain a b where ab: "c # s = a @ k @ b" by blast
    show "(\<exists>b. c # s = k @ b) \<or> (\<exists>a b. s = a @ k @ b)"
    proof (cases a)
      case Nil
      with ab show ?thesis by auto
    next
      case (Cons x a')
      with ab have "s = a' @ k @ b" by simp
      then show ?thesis by blast
    qed
  next
    assume "(\<exists>b. c # s = k @ b) \<or> (\<exists>a b. s = a @ k @ b)"
    then show "\<exists>a b. c # s = a @ k @ b"
    proof
      assume "\<exists>b. c # s = k @ b"
      then obtain b where "c # s = [] @ k @ b" by auto
      then show ?thesis by blast
    next
      assume "\<exists>a b. s = a @ k @ b"
      then obtain a b where "s = a @ k @ b" by blast
      then have "c # s = (c # a) @ k @ b" by simp
      then show ?thesis by blast
    qed
  qed
  then show ?case
    unfolding is_in.simps Cons.IH startswith_iff by blast
qed

lemma first_match_least:
  "i < length ps \<Longrightarrow> \<forall>j<i. (ps ! j) s = None \<Longrightarrow> (ps ! i) s = Some t \<Longrightarrow> first_match ps s = Some t"
proof (induction ps arbitrary: i)
  case Nil
  then show ?case by simp
next
  case (Cons p ps)
  show ?case
  proof (cases i)
    case 0
    with Cons.prems show ?thesis by simp
  next
    case (Suc i')
    have "((p # ps) ! 0) s = None" using Cons.prems(2) Suc by blast
    then have p: "p s = None" by simp
    have "\<forall>j<i'. (ps ! j) s = None"
    proof (intro allI impI)
      fix j assume "j < i'"
      then have "Suc j < i" using Suc by simp
      then have "((p # ps) ! Suc j) s = None" using Cons.prems(2) by blast
      then show "(ps ! j) s = None" by simp
    qed
    moreover have "i' < length ps" and "(ps ! i') s = Some t"
      using Cons.prems Suc by simp_all
    ultimately have "first_match ps s = Some t" using Cons.IH by blast
    with p show ?thesis by simp
  qed
qed

lemma first_match_none: "\<forall>p\<in>set ps. p s = None \<Longrightarrow> first_match ps s = None"
  by (induction ps) auto

lemma re_search_Some: "re_search m s = Some r \<Longrightarrow> \<exists>a b. s = a @ b \<and> m b = Some r"
proof (induction s)
  case Nil
  then show ?case by simp
next
  case (Cons c s)
  show ?case
  proof (cases "m (c # s)")
    case None
    with Cons.prems have "re_search m s = Some r" by simp
    then obtain a b where "s = a @ b" "m b = Some r" using Cons.IH by blast
    then have "c # s = (c # a) @ b \<and> m b = Some r" by simp
    then show ?thesis by blast
  next
    case (Some r')
    with Cons.prems have "r' = r" by simp
    with Some have "c # s = [] @ (c # s) \<and> m (c # s) = Some r" by simp
    then show ?thesis by blast
  qed
qed

lemma first_match_Some: "first_match ps s = Some t \<Longrightarrow> \<exists>i<length ps. (ps ! i) s = Some t"
proof (induction ps)
  case Nil
  then show ?case by simp
next
  case (Cons p ps)
  show ?case
  proof (cases "p s")
    case None
    with Cons.prems have "first_match ps s = Some t" by simp
    then obtain i where "i < length ps" "(ps ! i) s = Some t" using Cons.IH by blast
    then have "Suc i < length (p # ps) \<and> ((p # ps) ! Suc i) s = Some t" by simp
    then show ?thesis by blast
  next
    case (Some t')
    with Cons.prems have "0 < length (p # ps) \<and> ((p # ps) ! 0) s = Some t" by simp
    then show ?thesis by blast
  qed
qed

lemma all_less_3: "P 0 \<Longrightarrow> P 1 \<Longrightarrow> P 2 \<Longrightarrow> \<forall>j<3::nat. P j"
proof (intro allI impI)
  fix j :: nat
  assume p: "P 0" "P 1" "P 2" and "j < 3"
  then have "j = 0 \<or> j = 1 \<or> j = 2" by linarith
  with p show "P j" by blast
qed

lemma section_at_digits:
  "section_at U s = Some ds \<Longrightarrow> ds \<noteq> [] \<and> (\<forall>c\<in>set ds. is_digit U c)"
  unfolding section_at_def
  by (auto simp: Let_def split: option.splits if_splits dest: set_takeWhileD)

lemma section_match_digits:
  assumes "section_match U s = Some ds"
  shows "ds \<noteq> [] \<and> (\<forall>c\<in>set ds. is_digit U c)"
proof -
  obtain a b where "section_at U b = Some ds"
    using assms re_search_Some [of "section_at U" s ds] unfolding section_match_def by blast
  then show ?thesis by (rule section_at_digits)
qed

lemma length_zfill: "length (zfill n s) = max n (length s)"
  by (simp add: zfill_def)

text \<open>
  C3. The query has a definition keyword exactly when its lower-cased text contains one of
  the six keywords. Section detection comes first: a query with a section number is a
  section query, with or without a definition keyword (the guard of the definition branch
  is \<^verbatim>\<open>if is_definition_query and not section_match\<close>); its digits are padded with zeros
  on the left to at least three characters, so a number of more than three digits is kept
  as it is. A query with a keyword and no section number takes the definition branch: the
  four term patterns are tried in the order of the list and the first that matches gives
  the term; when none matches the intent is general. A query with neither is general. A
  query is a definition query only with a keyword, without a section number, and with a
  term that one of the four patterns finds.
\<close>

theorem classify_section_before_definition:
  "(is_definition_query U q \<longleftrightarrow>
      (\<exists>k\<in>set (map ascii
              [''definition'', ''define'', ''meaning'', ''means'', ''what is'', ''what does'']).
         \<exists>a b. lower U q = a @ k @ b))
   \<and> (section_match U (lower U q) = Some ds \<longrightarrow>
        classify U q = Section (zfill 3 ds)
        \<and> zfill 3 ds = replicate (3 - length ds) 48 @ ds
        \<and> ds \<noteq> [] \<and> (\<forall>c\<in>set ds. is_digit U c)
        \<and> (length ds \<le> 3 \<longrightarrow> length (zfill 3 ds) = 3)
        \<and> (3 \<le> length ds \<longrightarrow> zfill 3 ds = ds))
   \<and> length (term_patterns U) = 4
   \<and> (is_definition_query U q \<longrightarrow> section_match U (lower U q) = None \<longrightarrow>
        i < length (term_patterns U) \<longrightarrow>
        (\<forall>j<i. (term_patterns U ! j) (lower U q) = None) \<longrightarrow>
        (term_patterns U ! i) (lower U q) = Some t \<longrightarrow> classify U q = Definition t)
   \<and> (is_definition_query U q \<longrightarrow> section_match U (lower U q) = None \<longrightarrow>
        (\<forall>p\<in>set (term_patterns U). p (lower U q) = None) \<longrightarrow> classify U q = General q)
   \<and> (\<not> is_definition_query U q \<longrightarrow> section_match U (lower U q) = None \<longrightarrow>
        classify U q = General q)
   \<and> (classify U q = Definition t \<longrightarrow>
        is_definition_query U q \<and> section_match U (lower U q) = None
        \<and> (\<exists>i<length (term_patterns U). (term_patterns U ! i) (lower U q) = Some t))"
proof (intro conjI impI)
  show "is_definition_query U q \<longleftrightarrow>
      (\<exists>k\<in>set (map ascii
              [''definition'', ''define'', ''meaning'', ''means'', ''what is'', ''what does'']).
         \<exists>a b. lower U q = a @ k @ b)"
    unfolding is_definition_query_def definition_keywords_def list_ex_iff is_in_iff ..
next
  assume h: "section_match U (lower U q) = Some ds"
  then show "classify U q = Section (zfill 3 ds)"
    by (simp add: classify_def)
  show "zfill 3 ds = replicate (3 - length ds) 48 @ ds"
    by (simp add: zfill_def)
  show "ds \<noteq> []" and "\<forall>c\<in>set ds. is_digit U c"
    using section_match_digits [OF h] by simp_all
next
  assume "length ds \<le> 3"
  then show "length (zfill 3 ds) = 3" by (simp add: length_zfill)
next
  assume "3 \<le> length ds"
  then show "zfill 3 ds = ds" by (simp add: zfill_def)
next
  show "length (term_patterns U) = 4" by (simp add: term_patterns_def)
next
  assume "is_definition_query U q" "section_match U (lower U q) = None"
    "i < length (term_patterns U)"
    "\<forall>j<i. (term_patterns U ! j) (lower U q) = None"
    "(term_patterns U ! i) (lower U q) = Some t"
  then show "classify U q = Definition t"
    using first_match_least [of i "term_patterns U" "lower U q" t]
    by (simp add: classify_def definition_intent_def)
next
  assume "is_definition_query U q" "section_match U (lower U q) = None"
    "\<forall>p\<in>set (term_patterns U). p (lower U q) = None"
  then show "classify U q = General q"
    using first_match_none [of "term_patterns U" "lower U q"]
    by (simp add: classify_def definition_intent_def)
next
  assume "\<not> is_definition_query U q" "section_match U (lower U q) = None"
  then show "classify U q = General q"
    by (simp add: classify_def)
next
  assume c: "classify U q = Definition t"
  then show d: "is_definition_query U q" and n: "section_match U (lower U q) = None"
    by (auto simp: classify_def split: if_splits option.splits)
  from c d n have "first_match (term_patterns U) (lower U q) = Some t"
    by (simp add: classify_def definition_intent_def split: option.splits)
  then show "\<exists>i<length (term_patterns U). (term_patterns U ! i) (lower U q) = Some t"
    by (rule first_match_Some)
qed

theorem classify_section_before_definition_witness:
  "classify latin1_tables (ascii ''Explain Section 17'') = Section (ascii ''017'')
   \<and> classify latin1_tables (ascii ''What does Section 149 say?'') = Section (ascii ''149'')
   \<and> classify latin1_tables (ascii ''What is the definition of memorandum?'')
       = Definition (ascii ''memorandum'')
   \<and> classify latin1_tables (ascii ''Meaning of memorandum'') = Definition (ascii ''memorandum'')
   \<and> classify latin1_tables (ascii ''What does memorandum cover?'')
       = General (ascii ''What does memorandum cover?'')
   \<and> classify latin1_tables (ascii ''How to register a company?'')
       = General (ascii ''How to register a company?'')"
proof -
  let ?U = latin1_tables
  let ?q1 = "ascii ''Explain Section 17''"
  let ?q2 = "ascii ''What does Section 149 say?''"
  let ?q3 = "ascii ''What is the definition of memorandum?''"
  let ?q4 = "ascii ''Meaning of memorandum''"
  let ?q5 = "ascii ''What does memorandum cover?''"
  let ?q6 = "ascii ''How to register a company?''"
  have s1: "section_match ?U (lower ?U ?q1) = Some (ascii ''17'')" by code_simp
  have z1: "zfill 3 (ascii ''17'') = ascii ''017''" by code_simp
  have c1: "classify ?U ?q1 = Section (ascii ''017'')"
    using classify_section_before_definition [of ?U ?q1 "ascii ''17''"] s1 z1 by simp
  have s2: "section_match ?U (lower ?U ?q2) = Some (ascii ''149'')" by code_simp
  have z2: "zfill 3 (ascii ''149'') = ascii ''149''" by code_simp
  have c2: "classify ?U ?q2 = Section (ascii ''149'')"
    using classify_section_before_definition [of ?U ?q2 "ascii ''149''"] s2 z2 by simp
  have d3: "is_definition_query ?U ?q3" by code_simp
  have s3: "section_match ?U (lower ?U ?q3) = None" by code_simp
  have i3: "0 < length (term_patterns ?U)" by (simp add: term_patterns_def)
  have n3: "\<forall>j<0::nat. (term_patterns ?U ! j) (lower ?U ?q3) = None" by simp
  have t3: "(term_patterns ?U ! 0) (lower ?U ?q3) = Some (ascii ''memorandum'')" by code_simp
  have c3: "classify ?U ?q3 = Definition (ascii ''memorandum'')"
    using classify_section_before_definition [of ?U ?q3 _ 0 "ascii ''memorandum''"]
      d3 s3 i3 n3 t3 by blast
  have d4: "is_definition_query ?U ?q4" by code_simp
  have s4: "section_match ?U (lower ?U ?q4) = None" by code_simp
  have i4: "3 < length (term_patterns ?U)" by (simp add: term_patterns_def)
  have n40: "(term_patterns ?U ! 0) (lower ?U ?q4) = None" by code_simp
  have n41: "(term_patterns ?U ! 1) (lower ?U ?q4) = None" by code_simp
  have n42: "(term_patterns ?U ! 2) (lower ?U ?q4) = None" by code_simp
  have n4: "\<forall>j<3::nat. (term_patterns ?U ! j) (lower ?U ?q4) = None"
    using n40 n41 n42 by (rule all_less_3)
  have t4: "(term_patterns ?U ! 3) (lower ?U ?q4) = Some (ascii ''memorandum'')" by code_simp
  have c4: "classify ?U ?q4 = Definition (ascii ''memorandum'')"
    using classify_section_before_definition [of ?U ?q4 _ 3 "ascii ''memorandum''"]
      d4 s4 i4 n4 t4 by blast
  have d5: "is_definition_query ?U ?q5" by code_simp
  have s5: "section_match ?U (lower ?U ?q5) = None" by code_simp
  have n5: "list_all (\<lambda>p. p (lower ?U ?q5) = None) (term_patterns ?U)" by code_simp
  have c5: "classify ?U ?q5 = General ?q5"
    using classify_section_before_definition [of ?U ?q5] d5 s5 n5 unfolding list_all_iff
    by blast
  have d6: "\<not> is_definition_query ?U ?q6" by code_simp
  have s6: "section_match ?U (lower ?U ?q6) = None" by code_simp
  have c6: "classify ?U ?q6 = General ?q6"
    using classify_section_before_definition [of ?U ?q6] d6 s6 by blast
  show ?thesis by (intro conjI c1 c2 c3 c4 c5 c6)
qed

text \<open>
  The query \<^verbatim>\<open>What is the definition of section 2?\<close> has a definition keyword, and the
  first term pattern finds the term \<^verbatim>\<open>section 2\<close> in it; it is a section query all the
  same. The number of \<^verbatim>\<open>Explain section 1234\<close> keeps its four digits.
\<close>

theorem definition_query_with_section_number:
  "is_definition_query latin1_tables (ascii ''What is the definition of section 2?'')
   \<and> (term_patterns latin1_tables ! 0)
        (lower latin1_tables (ascii ''What is the definition of section 2?''))
       = Some (ascii ''section 2'')
   \<and> section_match latin1_tables
        (lower latin1_tables (ascii ''What is the definition of section 2?''))
       = Some (ascii ''2'')
   \<and> classify latin1_tables (ascii ''What is the definition of section 2?'')
       = Section (ascii ''002'')
   \<and> classify latin1_tables (ascii ''Explain section 1234'') = Section (ascii ''1234'')"
proof (intro conjI)
  show "is_definition_query latin1_tables (ascii ''What is the definition of section 2?'')"
    by code_simp
  show "(term_patterns latin1_tables ! 0)
        (lower latin1_tables (ascii ''What is the definition of section 2?''))
       = Some (ascii ''section 2'')"
    by code_simp
  show "section_match latin1_tables
        (lower latin1_tables (ascii ''What is the definition of section 2?''))
       = Some (ascii ''2'')"
    by code_simp
  show "classify latin1_tables (ascii ''What is the definition of section 2?'')
       = Section (ascii ''002'')"
    by code_simp
  show "classify latin1_tables (ascii ''Explain section 1234'') = Section (ascii ''1234'')"
    by code_simp
qed

section \<open>Properties of the direct lookup\<close>

lemma section_lookup_rows_subset:
  "set (section_lookup_rows store k n) \<subseteq> {c \<in> set store. ci_section c = Some k}"
proof -
  have "set (section_lookup_rows store k n)
          \<subseteq> set (sort_key section_order_key (filter (\<lambda>c. ci_section c = Some k) store))"
    unfolding section_lookup_rows_def by (rule set_take_subset)
  then show ?thesis by auto
qed

lemma section_lookup_rows_sorted:
  "sorted (map section_order_key (section_lookup_rows store k n))"
proof -
  have "sorted (take n (map section_order_key
          (sort_key section_order_key (filter (\<lambda>c. ci_section c = Some k) store))))"
    by (rule sorted_wrt_take) simp
  then show ?thesis by (simp add: section_lookup_rows_def take_map)
qed

lemma section_lookup_rows_length:
  "length (section_lookup_rows store k n)
     = min n (length (filter (\<lambda>c. ci_section c = Some k) store))"
  by (simp add: section_lookup_rows_def min.commute)

lemma role_rank_le: "role_rank a \<le> role_rank b \<longleftrightarrow> (b = Parent \<longrightarrow> a = Parent)"
  by (simp add: role_rank_def)

lemma sorted_section_keys_nth:
  assumes "sorted (map section_order_key rows)" and "i < j" and "j < length rows"
  shows "(ci_chunk_role (rows ! j) = Parent \<longrightarrow> ci_chunk_role (rows ! i) = Parent)
         \<and> (ci_chunk_role (rows ! i) = ci_chunk_role (rows ! j)
              \<longrightarrow> ci_chunk_id (rows ! i) \<le> ci_chunk_id (rows ! j))"
proof -
  have "map section_order_key rows ! i \<le> map section_order_key rows ! j"
    using assms by (simp add: sorted_iff_nth_mono)
  then have le: "section_order_key (rows ! i) \<le> section_order_key (rows ! j)"
    using assms by simp
  then have "role_rank (ci_chunk_role (rows ! i)) \<le> role_rank (ci_chunk_role (rows ! j))"
    unfolding section_order_key_def by (auto simp: less_eq_prod_def)
  then have a: "ci_chunk_role (rows ! j) = Parent \<longrightarrow> ci_chunk_role (rows ! i) = Parent"
    by (simp add: role_rank_le)
  have b: "ci_chunk_role (rows ! i) = ci_chunk_role (rows ! j)
             \<longrightarrow> ci_chunk_id (rows ! i) \<le> ci_chunk_id (rows ! j)"
    using le unfolding section_order_key_def by (auto simp: less_eq_prod_def)
  from a b show ?thesis by blast
qed

text \<open>
  C4, as the code has it. The direct lookup of a section returns the chunks of the store
  whose section equals the key, whatever their lifecycle status: at most \<open>top_k\<close> of them,
  the first \<open>top_k\<close> in the order parents before children and then by chunk id.
\<close>

theorem section_lookup_ordered_and_bounded:
  "direct_section_lookup store key top_k = map ci_chunk_id (section_lookup_rows store key top_k)
   \<and> (\<forall>c\<in>set (section_lookup_rows store key top_k). c \<in> set store \<and> ci_section c = Some key)
   \<and> length (section_lookup_rows store key top_k) \<le> top_k
   \<and> length (section_lookup_rows store key top_k)
        = min top_k (length (filter (\<lambda>c. ci_section c = Some key) store))
   \<and> (\<forall>j < length (section_lookup_rows store key top_k). \<forall>i < j.
         (ci_chunk_role (section_lookup_rows store key top_k ! j) = Parent
            \<longrightarrow> ci_chunk_role (section_lookup_rows store key top_k ! i) = Parent)
         \<and> (ci_chunk_role (section_lookup_rows store key top_k ! i)
               = ci_chunk_role (section_lookup_rows store key top_k ! j)
            \<longrightarrow> ci_chunk_id (section_lookup_rows store key top_k ! i)
                  \<le> ci_chunk_id (section_lookup_rows store key top_k ! j)))
   \<and> (c \<in> set store \<longrightarrow> ci_section c = Some key \<longrightarrow>
        length (filter (\<lambda>c. ci_section c = Some key) store) \<le> top_k \<longrightarrow>
        c \<in> set (section_lookup_rows store key top_k))"
proof (intro conjI)
  show "direct_section_lookup store key top_k = map ci_chunk_id (section_lookup_rows store key top_k)"
    by (simp add: direct_section_lookup_def)
  show "\<forall>c\<in>set (section_lookup_rows store key top_k). c \<in> set store \<and> ci_section c = Some key"
    using section_lookup_rows_subset [of store key top_k] by blast
  show "length (section_lookup_rows store key top_k) \<le> top_k"
    by (simp add: section_lookup_rows_length)
  show "length (section_lookup_rows store key top_k)
        = min top_k (length (filter (\<lambda>c. ci_section c = Some key) store))"
    by (rule section_lookup_rows_length)
  show "\<forall>j < length (section_lookup_rows store key top_k). \<forall>i < j.
         (ci_chunk_role (section_lookup_rows store key top_k ! j) = Parent
            \<longrightarrow> ci_chunk_role (section_lookup_rows store key top_k ! i) = Parent)
         \<and> (ci_chunk_role (section_lookup_rows store key top_k ! i)
               = ci_chunk_role (section_lookup_rows store key top_k ! j)
            \<longrightarrow> ci_chunk_id (section_lookup_rows store key top_k ! i)
                  \<le> ci_chunk_id (section_lookup_rows store key top_k ! j))"
    using sorted_section_keys_nth [OF section_lookup_rows_sorted] by blast
  show "c \<in> set store \<longrightarrow> ci_section c = Some key \<longrightarrow>
        length (filter (\<lambda>c. ci_section c = Some key) store) \<le> top_k \<longrightarrow>
        c \<in> set (section_lookup_rows store key top_k)"
    by (simp add: section_lookup_rows_def)
qed

theorem section_lookup_ordered_and_bounded_witness:
  "direct_section_lookup [section17_child, section17_parent] (ascii ''017'') 15
     = [ascii ''ca2013_act_s017'', ascii ''ca2013_act_s017_c01'']
   \<and> section_lookup_rows [section17_child, section17_parent] (ascii ''017'') 15
     = [section17_parent, section17_child]
   \<and> length (section_lookup_rows [section17_child, section17_parent] (ascii ''017'') 15) \<le> 15
   \<and> section17_child \<in> set (section_lookup_rows [section17_child, section17_parent] (ascii ''017'') 15)
   \<and> ci_section section17_child = Some (ascii ''017'')
   \<and> ci_chunk_role (section_lookup_rows [section17_child, section17_parent] (ascii ''017'') 15 ! 0) = Parent"
proof -
  let ?store = "[section17_child, section17_parent]"
  let ?rows = "section_lookup_rows ?store (ascii ''017'') 15"
  note t = section_lookup_ordered_and_bounded [of ?store "ascii ''017''" 15 section17_child]
  have r: "?rows = [section17_parent, section17_child]" by code_simp
  have m: "section17_child \<in> set ?store" by simp
  have s: "ci_section section17_child = Some (ascii ''017'')" by code_simp
  have n: "length (filter (\<lambda>c. ci_section c = Some (ascii ''017'')) ?store) \<le> 15" by code_simp
  have a: "direct_section_lookup ?store (ascii ''017'') 15 = [ascii ''ca2013_act_s017'', ascii ''ca2013_act_s017_c01'']"
    by code_simp
  have b: "length ?rows \<le> 15" using t by blast
  have c: "section17_child \<in> set ?rows" using t m s n by blast
  have "ci_chunk_role (?rows ! 0) = Parent" unfolding r by code_simp
  then show ?thesis using r a b c s by blast
qed

text \<open>
  The child of section 17 is in draft; the direct lookup of the section returns it.
\<close>

theorem section_lookup_returns_draft_chunk:
  "section_lookup_rows [section17_child, section17_parent] (ascii ''017'') 15
     = [section17_parent, section17_child]
   \<and> cl_status section17_child = DRAFT
   \<and> \<not> (\<forall>c\<in>set (section_lookup_rows [section17_child, section17_parent] (ascii ''017'') 15).
         cl_status c = ACTIVE)"
proof -
  have r: "section_lookup_rows [section17_child, section17_parent] (ascii ''017'') 15
          = [section17_parent, section17_child]"
    by code_simp
  have d: "cl_status section17_child = DRAFT" by code_simp
  show ?thesis unfolding r using d by simp
qed

lemma like_match_percent:
  "like_match (37 # ps) s \<longleftrightarrow> (\<exists>a b. s = a @ b \<and> like_match ps b)"
proof (induction s)
  case Nil
  then show ?case by simp
next
  case (Cons x xs)
  have "(\<exists>a b. x # xs = a @ b \<and> like_match ps b)
          \<longleftrightarrow> like_match ps (x # xs) \<or> (\<exists>a b. xs = a @ b \<and> like_match ps b)"
  proof
    assume "\<exists>a b. x # xs = a @ b \<and> like_match ps b"
    then obtain a b where ab: "x # xs = a @ b" "like_match ps b" by blast
    show "like_match ps (x # xs) \<or> (\<exists>a b. xs = a @ b \<and> like_match ps b)"
    proof (cases a)
      case Nil
      with ab show ?thesis by simp
    next
      case (Cons y a')
      with ab have "xs = a' @ b" by simp
      with ab(2) show ?thesis by blast
    qed
  next
    assume "like_match ps (x # xs) \<or> (\<exists>a b. xs = a @ b \<and> like_match ps b)"
    then show "\<exists>a b. x # xs = a @ b \<and> like_match ps b"
    proof
      assume "like_match ps (x # xs)"
      then have "x # xs = [] @ (x # xs) \<and> like_match ps (x # xs)" by simp
      then show ?thesis by blast
    next
      assume "\<exists>a b. xs = a @ b \<and> like_match ps b"
      then obtain a b where "xs = a @ b" "like_match ps b" by blast
      then have "x # xs = (x # a) @ b \<and> like_match ps b" by simp
      then show ?thesis by blast
    qed
  qed
  moreover have "like_match (37 # ps) (x # xs)
                   \<longleftrightarrow> like_match ps (x # xs) \<or> like_match (37 # ps) xs"
    by simp
  ultimately show ?case using Cons.IH by blast
qed

lemma like_match_literal:
  "\<forall>c\<in>set t. \<not> like_special c \<Longrightarrow>
     like_match (t @ ps) s \<longleftrightarrow> (\<exists>b. s = t @ b \<and> like_match ps b)"
proof (induction t arbitrary: s)
  case Nil
  then show ?case by simp
next
  case (Cons c t)
  then have c: "c \<noteq> 37" "c \<noteq> 95" "c \<noteq> 92"
    by (auto simp: like_special_def)
  have IH: "\<And>s. like_match (t @ ps) s \<longleftrightarrow> (\<exists>b. s = t @ b \<and> like_match ps b)"
    using Cons by simp
  show ?case
  proof (cases s)
    case Nil
    with c show ?thesis by simp
  next
    case (Cons x xs)
    with c have "like_match ((c # t) @ ps) s \<longleftrightarrow> x = c \<and> like_match (t @ ps) xs" by simp
    also have "\<dots> \<longleftrightarrow> x = c \<and> (\<exists>b. xs = t @ b \<and> like_match ps b)" using IH by simp
    also have "\<dots> \<longleftrightarrow> (\<exists>b. s = (c # t) @ b \<and> like_match ps b)" using Cons by auto
    finally show ?thesis .
  qed
qed

lemma like_match_any: "like_match [37] s"
  by (induction s) simp_all

lemma like_contains:
  assumes "\<forall>c\<in>set t. \<not> like_special c"
  shows "like_match ([37] @ t @ [37]) s \<longleftrightarrow> is_in t s"
proof -
  have "like_match ([37] @ t @ [37]) s \<longleftrightarrow> (\<exists>a b. s = a @ b \<and> like_match (t @ [37]) b)"
    using like_match_percent [of "t @ [37]" s] by simp
  also have "\<dots> \<longleftrightarrow> (\<exists>a b. s = a @ b \<and> (\<exists>d. b = t @ d \<and> like_match [37] d))"
    using like_match_literal [OF assms, of "[37]"] by simp
  also have "\<dots> \<longleftrightarrow> (\<exists>a d. s = a @ t @ d)"
    using like_match_any by blast
  finally show ?thesis by (simp add: is_in_iff)
qed

lemma set_take_sorted_filter:
  "x \<in> set (take n (sort_key f (filter P xs))) \<Longrightarrow> x \<in> set xs \<and> P x"
  using set_take_subset [of n "sort_key f (filter P xs)"] by auto

lemma sorted_role_rank_nth:
  assumes "sorted (map (\<lambda>c. role_rank (ci_chunk_role c)) rows)" and "i < j" and "j < length rows"
  shows "ci_chunk_role (rows ! j) = Parent \<longrightarrow> ci_chunk_role (rows ! i) = Parent"
proof -
  have "map (\<lambda>c. role_rank (ci_chunk_role c)) rows ! i
          \<le> map (\<lambda>c. role_rank (ci_chunk_role c)) rows ! j"
    using assms by (simp add: sorted_iff_nth_mono)
  then have "role_rank (ci_chunk_role (rows ! i)) \<le> role_rank (ci_chunk_role (rows ! j))"
    using assms by simp
  then show ?thesis by (simp add: role_rank_le)
qed

lemma definition_lookup_rows_sorted:
  "sorted (map (\<lambda>c. role_rank (ci_chunk_role c)) (definition_lookup_rows U store term))"
proof -
  let ?f = "\<lambda>c. role_rank (ci_chunk_role c)"
  let ?P = "\<lambda>c. ci_section c = Some (ascii ''002'') \<and> ci_document_type c = Act
                 \<and> like_match (definition_pattern U term) (pg_lower U (cc_text c))"
  have "sorted (take 5 (map ?f (sort_key ?f (filter ?P store))))"
    by (rule sorted_wrt_take) simp
  then show ?thesis unfolding definition_lookup_rows_def take_map .
qed

text \<open>
  C5, as the code has it. The direct lookup of a definition returns chunks of section 002
  of the Act whose text, lower-cased by the database, matches the pattern \<open>%term%\<close> of
  \<^verbatim>\<open>LIKE\<close> built from the lower-cased term (for a term without \<^verbatim>\<open>LIKE\<close> wildcards:
  contains the lower-cased term), whatever their lifecycle status: the first five of them
  in the order parents before children, and not the top-k of the request.
\<close>

theorem definition_lookup_section_002:
  "direct_definition_lookup U store term
     = map ci_chunk_id (definition_lookup_rows U store term)
   \<and> (\<forall>c\<in>set (definition_lookup_rows U store term).
         c \<in> set store \<and> ci_section c = Some (ascii ''002'') \<and> ci_document_type c = Act
         \<and> like_match ([37] @ lower U term @ [37]) (pg_lower U (cc_text c)))
   \<and> ((\<forall>x\<in>set (lower U term). \<not> like_special x) \<longrightarrow>
        (\<forall>c\<in>set (definition_lookup_rows U store term).
           is_in (lower U term) (pg_lower U (cc_text c)))
        \<and> definition_lookup_rows U store term
            = take 5 (sort_key (\<lambda>c. role_rank (ci_chunk_role c))
                (filter (\<lambda>c. ci_section c = Some (ascii ''002'') \<and> ci_document_type c = Act
                              \<and> is_in (lower U term) (pg_lower U (cc_text c))) store)))
   \<and> length (definition_lookup_rows U store term) \<le> 5
   \<and> (\<forall>j < length (definition_lookup_rows U store term). \<forall>i < j.
         ci_chunk_role (definition_lookup_rows U store term ! j) = Parent
           \<longrightarrow> ci_chunk_role (definition_lookup_rows U store term ! i) = Parent)"
proof (intro conjI impI)
  show "direct_definition_lookup U store term
     = map ci_chunk_id (definition_lookup_rows U store term)"
    by (simp add: direct_definition_lookup_def)
  show "\<forall>c\<in>set (definition_lookup_rows U store term).
         c \<in> set store \<and> ci_section c = Some (ascii ''002'') \<and> ci_document_type c = Act
         \<and> like_match ([37] @ lower U term @ [37]) (pg_lower U (cc_text c))"
    unfolding definition_lookup_rows_def definition_pattern_def
    using set_take_sorted_filter by fast
  show "length (definition_lookup_rows U store term) \<le> 5"
    by (simp add: definition_lookup_rows_def)
  show "\<forall>j < length (definition_lookup_rows U store term). \<forall>i < j.
         ci_chunk_role (definition_lookup_rows U store term ! j) = Parent
           \<longrightarrow> ci_chunk_role (definition_lookup_rows U store term ! i) = Parent"
    using sorted_role_rank_nth [OF definition_lookup_rows_sorted] by blast
next
  assume h: "\<forall>x\<in>set (lower U term). \<not> like_special x"
  have eq: "\<And>s. like_match (definition_pattern U term) s \<longleftrightarrow> is_in (lower U term) s"
    unfolding definition_pattern_def using like_contains [OF h] by simp
  show r: "definition_lookup_rows U store term
            = take 5 (sort_key (\<lambda>c. role_rank (ci_chunk_role c))
                (filter (\<lambda>c. ci_section c = Some (ascii ''002'') \<and> ci_document_type c = Act
                              \<and> is_in (lower U term) (pg_lower U (cc_text c))) store))"
    unfolding definition_lookup_rows_def eq ..
  show "\<forall>c\<in>set (definition_lookup_rows U store term).
           is_in (lower U term) (pg_lower U (cc_text c))"
    unfolding r using set_take_sorted_filter by fast
qed

theorem definition_lookup_section_002_witness:
  "direct_definition_lookup latin1_tables [section2_child, section17_parent, section2_parent]
       (ascii ''Memorandum'')
     = [ascii ''ca2013_act_s002'', ascii ''ca2013_act_s002_c01'']
   \<and> definition_lookup_rows latin1_tables [section2_child, section17_parent, section2_parent]
       (ascii ''Memorandum'')
     = [section2_parent, section2_child]
   \<and> is_in (ascii ''memorandum'') (pg_lower latin1_tables (cc_text section2_child))
   \<and> length (definition_lookup_rows latin1_tables
        [section2_child, section17_parent, section2_parent] (ascii ''Memorandum'')) \<le> 5
   \<and> ci_chunk_role (definition_lookup_rows latin1_tables
        [section2_child, section17_parent, section2_parent] (ascii ''Memorandum'') ! 0) = Parent"
proof -
  let ?U = latin1_tables
  let ?store = "[section2_child, section17_parent, section2_parent]"
  let ?rows = "definition_lookup_rows ?U ?store (ascii ''Memorandum'')"
  note t = definition_lookup_section_002 [of ?U ?store "ascii ''Memorandum''"]
  have l: "lower ?U (ascii ''Memorandum'') = ascii ''memorandum''" by code_simp
  have "list_all (\<lambda>x. \<not> like_special x) (ascii ''memorandum'')" by code_simp
  then have h: "\<forall>x\<in>set (lower ?U (ascii ''Memorandum'')). \<not> like_special x"
    unfolding l list_all_iff .
  note t3 = t [THEN conjunct2, THEN conjunct2, THEN conjunct1, THEN mp, OF h]
  have f: "take 5 (sort_key (\<lambda>c. role_rank (ci_chunk_role c))
             (filter (\<lambda>c. ci_section c = Some (ascii ''002'') \<and> ci_document_type c = Act
                \<and> is_in (lower ?U (ascii ''Memorandum'')) (pg_lower ?U (cc_text c))) ?store))
            = [section2_parent, section2_child]"
    by code_simp
  have r: "?rows = [section2_parent, section2_child]"
    by (rule trans [OF t3 [THEN conjunct2] f])
  have a: "direct_definition_lookup ?U ?store (ascii ''Memorandum'')
             = [ascii ''ca2013_act_s002'', ascii ''ca2013_act_s002_c01'']"
    by code_simp
  have "\<forall>c\<in>set [section2_parent, section2_child].
          is_in (lower ?U (ascii ''Memorandum'')) (pg_lower ?U (cc_text c))"
    using t3 [THEN conjunct1] unfolding r .
  then have "is_in (lower ?U (ascii ''Memorandum'')) (pg_lower ?U (cc_text section2_child))"
    by (rule bspec) simp
  then have i: "is_in (ascii ''memorandum'') (pg_lower ?U (cc_text section2_child))"
    unfolding l .
  have n: "length ?rows \<le> 5"
    by (rule t [THEN conjunct2, THEN conjunct2, THEN conjunct2, THEN conjunct1])
  have j: "1 < length ?rows" unfolding r by simp
  have "ci_chunk_role (?rows ! 1) = Parent \<longrightarrow> ci_chunk_role (?rows ! 0) = Parent"
    using t [THEN conjunct2, THEN conjunct2, THEN conjunct2, THEN conjunct2, rule_format,
        OF j, of 0]
    by simp
  moreover have "ci_chunk_role section2_parent = Parent" by code_simp
  ultimately have p: "ci_chunk_role (?rows ! 0) = Parent" unfolding r by simp
  show ?thesis by (intro conjI a r i n p)
qed

text \<open>
  Section 2 with a child still in draft: the lookup returns the draft child, and it
  returns two chunks for a request with the top-k 1.
\<close>

theorem definition_lookup_returns_draft_chunk:
  "definition_lookup_rows latin1_tables [section2_child, section17_parent, section2_parent]
       (ascii ''memorandum'')
     = [section2_parent, section2_child]
   \<and> cl_status section2_child = DRAFT
   \<and> \<not> (\<forall>c\<in>set (definition_lookup_rows latin1_tables
              [section2_child, section17_parent, section2_parent] (ascii ''memorandum'')).
         cl_status c = ACTIVE)
   \<and> \<not> length (definition_lookup_rows latin1_tables
              [section2_child, section17_parent, section2_parent] (ascii ''memorandum'')) \<le> 1"
proof -
  have r: "definition_lookup_rows latin1_tables
             [section2_child, section17_parent, section2_parent] (ascii ''memorandum'')
          = [section2_parent, section2_child]"
    by code_simp
  have s: "cl_status section2_child = DRAFT" by code_simp
  show ?thesis unfolding r using s by simp
qed

section \<open>Properties of the vector search\<close>

lemma similarity_in_unit_interval:
  "0 \<le> similarity_of_distance d \<and> similarity_of_distance d \<le> 1 \<longleftrightarrow> 0 \<le> d \<and> d \<le> 2"
  unfolding similarity_of_distance_def by auto

lemma map_hits_Inr:
  "map_hits md res = Inr hits \<Longrightarrow>
     length hits = length res
     \<and> (\<forall>i < length res. py_index md (snd (res ! i)) = Inr (fst (hits ! i))
                          \<and> snd (hits ! i) = similarity_of_distance (fst (res ! i)))"
proof (induction res arbitrary: hits)
  case Nil
  then show ?case by simp
next
  case (Cons r res)
  obtain d idx where r: "r = (d, idx)" by (cases r)
  from Cons.prems r obtain cid hs where
    cid: "py_index md idx = Inr cid" and hs: "map_hits md res = Inr hs"
    and hits: "hits = (cid, similarity_of_distance d) # hs"
    by (auto split: sum.splits)
  have IH: "length hs = length res
     \<and> (\<forall>i < length res. py_index md (snd (res ! i)) = Inr (fst (hs ! i))
                          \<and> snd (hs ! i) = similarity_of_distance (fst (res ! i)))"
    using Cons.IH [OF hs] .
  show ?case
  proof (intro conjI allI impI)
    show "length hits = length (r # res)" using IH hits by simp
  next
    fix i assume "i < length (r # res)"
    then show "py_index md (snd ((r # res) ! i)) = Inr (fst (hits ! i))"
      using IH hits r cid by (cases i) auto
  next
    fix i assume "i < length (r # res)"
    then show "snd (hits ! i) = similarity_of_distance (fst ((r # res) ! i))"
      using IH hits r by (cases i) auto
  qed
qed

text \<open>
  C6, as the code has it. Every pair the index search returns becomes a hit, resolved
  through the metadata list; no lifecycle status and no embedding flag is read. The score
  of a hit is one minus half its raw distance, so it lies between 0 and 1 exactly when the
  distance lies between 0 and 2.
\<close>

theorem similarity_score_of_distance:
  "search_vectors vs q top_k = Inr hits \<longrightarrow> embed vs q = Some v \<longrightarrow>
     length hits = length (index_search vs v top_k)
     \<and> (\<forall>i < length hits.
           py_index (metadata vs) (snd (index_search vs v top_k ! i)) = Inr (fst (hits ! i))
           \<and> snd (hits ! i) = 1 - fst (index_search vs v top_k ! i) / 2
           \<and> ((0 \<le> snd (hits ! i) \<and> snd (hits ! i) \<le> 1)
                \<longleftrightarrow> (0 \<le> fst (index_search vs v top_k ! i)
                     \<and> fst (index_search vs v top_k ! i) \<le> 2)))"
proof (intro impI)
  assume s: "search_vectors vs q top_k = Inr hits" and e: "embed vs q = Some v"
  let ?res = "index_search vs v top_k"
  have "map_hits (metadata vs) ?res = Inr hits"
    using s e by (simp add: search_vectors_def embedding_unavailable_def)
  from map_hits_Inr [OF this]
  have len: "length hits = length ?res"
    and nth: "\<And>i. i < length ?res \<Longrightarrow>
                py_index (metadata vs) (snd (?res ! i)) = Inr (fst (hits ! i))
                \<and> snd (hits ! i) = similarity_of_distance (fst (?res ! i))"
    by blast+
  show "length hits = length ?res
     \<and> (\<forall>i < length hits.
           py_index (metadata vs) (snd (?res ! i)) = Inr (fst (hits ! i))
           \<and> snd (hits ! i) = 1 - fst (?res ! i) / 2
           \<and> ((0 \<le> snd (hits ! i) \<and> snd (hits ! i) \<le> 1)
                \<longleftrightarrow> (0 \<le> fst (?res ! i) \<and> fst (?res ! i) \<le> 2)))"
  proof (intro conjI allI impI)
    show "length hits = length ?res" by (rule len)
  next
    fix i assume "i < length hits"
    then show "py_index (metadata vs) (snd (?res ! i)) = Inr (fst (hits ! i))"
      using nth len by simp
  next
    fix i assume "i < length hits"
    then show "snd (hits ! i) = 1 - fst (?res ! i) / 2"
      using nth len by (simp add: similarity_of_distance_def)
  next
    fix i assume "i < length hits"
    then have "snd (hits ! i) = similarity_of_distance (fst (?res ! i))"
      using nth len by simp
    then show "(0 \<le> snd (hits ! i) \<and> snd (hits ! i) \<le> 1)
                \<longleftrightarrow> (0 \<le> fst (?res ! i) \<and> fst (?res ! i) \<le> 2)"
      using similarity_in_unit_interval by simp
  qed
qed

lemma search_near_store:
  "search_vectors near_store q k = Inr [(ascii ''ca2013_act_s017_c01'', 3 / 4)]"
  by (simp add: search_vectors_def embedding_unavailable_def near_store_def py_index_def similarity_of_distance_def)

lemma search_far_store:
  "search_vectors far_store q k = Inr [(ascii ''ca2013_act_s017_c01'', - (1 / 2))]"
  by (simp add: search_vectors_def embedding_unavailable_def far_store_def near_store_def py_index_def
      similarity_of_distance_def)

theorem similarity_score_of_distance_witness:
  "search_vectors near_store (ascii ''csr penalties'') 1 = Inr [(ascii ''ca2013_act_s017_c01'', 3 / 4)]
   \<and> snd ([(ascii ''ca2013_act_s017_c01'', 3 / 4 :: real)] ! 0) = 1 - (1 / 2) / 2
   \<and> 0 \<le> snd ([(ascii ''ca2013_act_s017_c01'', 3 / 4 :: real)] ! 0)
   \<and> snd ([(ascii ''ca2013_act_s017_c01'', 3 / 4 :: real)] ! 0) \<le> 1"
proof -
  let ?hits = "[(ascii ''ca2013_act_s017_c01'', 3 / 4 :: real)]"
  have s: "search_vectors near_store (ascii ''csr penalties'') 1 = Inr ?hits"
    by (rule search_near_store)
  have e: "embed near_store (ascii ''csr penalties'') = Some [1, 0]"
    by (simp add: near_store_def)
  have r: "index_search near_store [1, 0] 1 = [(1 / 2, 0)]"
    by (simp add: near_store_def)
  have i: "0 < length ?hits" by simp
  note t = similarity_score_of_distance [of near_store "ascii ''csr penalties''" 1 ?hits "[1, 0]",
      THEN mp, OF s, THEN mp, OF e, THEN conjunct2, rule_format, OF i]
  have a: "snd (?hits ! 0) = 1 - (1 / 2) / 2"
    using t [THEN conjunct2, THEN conjunct1] unfolding r by simp
  have d: "0 \<le> fst ([(1 / 2 :: real, 0 :: int)] ! 0) \<and> fst ([(1 / 2 :: real, 0 :: int)] ! 0) \<le> 2"
    by simp
  have b: "0 \<le> snd (?hits ! 0) \<and> snd (?hits ! 0) \<le> 1"
    using t [THEN conjunct2, THEN conjunct2] d unfolding r by (rule iffD2)
  show ?thesis using s a b by (intro conjI) simp_all
qed

text \<open>
  A vector at the distance 3 has the score -1/2, and the chunk it resolves to is returned
  although it is in draft.
\<close>

theorem similarity_score_below_zero:
  "search_vectors far_store (ascii ''csr penalties'') 1 = Inr [(ascii ''ca2013_act_s017_c01'', - (1 / 2))]
   \<and> \<not> (0 \<le> snd (ascii ''ca2013_act_s017_c01'', - (1 / 2) :: real))
   \<and> get_chunk_details [section17_parent, section17_child] [ascii ''ca2013_act_s017_c01'']
        = [section17_child]
   \<and> cl_status section17_child = DRAFT"
proof -
  have a: "search_vectors far_store (ascii ''csr penalties'') 1
             = Inr [(ascii ''ca2013_act_s017_c01'', - (1 / 2))]"
    by (rule search_far_store)
  have b: "\<not> (0 \<le> snd (ascii ''ca2013_act_s017_c01'', - (1 / 2) :: real))" by simp
  have c: "get_chunk_details [section17_parent, section17_child] [ascii ''ca2013_act_s017_c01'']
             = [section17_child]"
    by code_simp
  have d: "cl_status section17_child = DRAFT" by code_simp
  show ?thesis by (intro conjI a b c d)
qed

section \<open>Properties of the context\<close>

lemma join_Cons: "join sep (p # ps) = p @ (if ps = [] then [] else sep @ join sep ps)"
  by (cases ps) simp_all

lemma join_append:
  "join sep (xs @ ys)
     = join sep xs @ (if xs = [] \<or> ys = [] then [] else sep) @ join sep ys"
proof (induction xs)
  case Nil
  then show ?case by simp
next
  case (Cons x xs)
  show ?case
  proof (cases "xs = []")
    case True
    then show ?thesis by (simp add: join_Cons)
  next
    case False
    then show ?thesis using Cons.IH by (simp add: join_Cons)
  qed
qed

lemma startswith_append: "startswith (p @ r) p"
  by (simp add: startswith_def)

lemma startswith_take:
  "startswith (take n (p @ r)) p \<longleftrightarrow> length p \<le> n"
proof
  assume "startswith (take n (p @ r)) p"
  then have "take (length p) (take n (p @ r)) = p" by (simp add: startswith_def)
  then have "length (take (length p) (take n (p @ r))) = length p" by simp
  then show "length p \<le> n" by simp
next
  assume "length p \<le> n"
  then have "take (length p) (take n (p @ r)) = p" by (simp add: min_absorb1)
  then show "startswith (take n (p @ r)) p" by (simp add: startswith_def)
qed

lemma join_take_prefix:
  "\<exists>r. join sep ps = join sep (take k ps) @ r"
proof -
  have "join sep ps = join sep (take k ps @ drop k ps)" by simp
  then show ?thesis unfolding join_append by blast
qed

lemma first_block_whole_iff:
  "startswith (build_context limit (c # cs)) (context_part c) \<longleftrightarrow> length (context_part c) \<le> limit"
  unfolding build_context_def list.map join_Cons by (rule startswith_take)

lemma get_chunk_details_sorted:
  "sorted (map details_order_key (get_chunk_details store ids))"
  unfolding get_chunk_details_def by (rule sorted_sort_key)

text \<open>
  C7, as the code has it. The context is the blocks of the chunks, joined by the separator
  line in the order of the chunk details (priority ascending, then section), and cut to the
  first \<open>limit\<close> characters. What is cut is a suffix: every run of leading blocks that fits
  in the limit stands whole at the start of the context, and the first block is whole
  exactly when it is not longer than the limit.
\<close>

theorem context_is_prefix_of_blocks:
  "build_context limit cs = take limit (join context_separator (map context_part cs))
   \<and> length (build_context limit cs) \<le> limit
   \<and> (length (join context_separator (map context_part cs)) \<le> limit \<longrightarrow>
        build_context limit cs = join context_separator (map context_part cs))
   \<and> (length (join context_separator (map context_part (take k cs))) \<le> limit \<longrightarrow>
        startswith (build_context limit cs)
          (join context_separator (map context_part (take k cs))))
   \<and> (cs \<noteq> [] \<longrightarrow>
        (startswith (build_context limit cs) (context_part (hd cs))
           \<longleftrightarrow> length (context_part (hd cs)) \<le> limit))
   \<and> sorted (map details_order_key (get_chunk_details store ids))
   \<and> context_part c
        = ascii ''['' @ upper (document_type_str (ci_document_type c)) @ ascii ''] Section ''
          @ py_str (ci_section c) @ ascii '': '' @ py_str (cc_title c) @ newline @ cc_text c"
proof (intro conjI impI)
  show "build_context limit cs = take limit (join context_separator (map context_part cs))"
    by (simp add: build_context_def)
  show "length (build_context limit cs) \<le> limit"
    by (simp add: build_context_def)
  show "sorted (map details_order_key (get_chunk_details store ids))"
    by (rule get_chunk_details_sorted)
  show "context_part c
        = ascii ''['' @ upper (document_type_str (ci_document_type c)) @ ascii ''] Section ''
          @ py_str (ci_section c) @ ascii '': '' @ py_str (cc_title c) @ newline @ cc_text c"
    by (simp add: context_part_def citation_of_def ascii_def)
next
  assume "length (join context_separator (map context_part cs)) \<le> limit"
  then show "build_context limit cs = join context_separator (map context_part cs)"
    by (simp add: build_context_def)
next
  assume h: "length (join context_separator (map context_part (take k cs))) \<le> limit"
  obtain r where "join context_separator (map context_part cs)
      = join context_separator (take k (map context_part cs)) @ r"
    using join_take_prefix by blast
  then have e: "build_context limit cs
      = take limit (join context_separator (map context_part (take k cs)) @ r)"
    unfolding build_context_def take_map by (rule arg_cong)
  show "startswith (build_context limit cs)
          (join context_separator (map context_part (take k cs)))"
    unfolding e using h by (rule startswith_take [THEN iffD2])
next
  assume "cs \<noteq> []"
  then obtain c' cs' where "cs = c' # cs'" by (cases cs) auto
  then show "startswith (build_context limit cs) (context_part (hd cs))
           \<longleftrightarrow> length (context_part (hd cs)) \<le> limit"
    using first_block_whole_iff by simp
qed

lemma context_part_length: "length (cc_text c) \<le> length (context_part c)"
  by (simp add: context_part_def)

theorem context_is_prefix_of_blocks_witness:
  "startswith (build_context 150 [section17_parent, section17_child])
     (context_part section17_parent)
   \<and> length (build_context 150 [section17_parent, section17_child]) \<le> 150
   \<and> build_context context_limit [section17_parent, section17_child]
       = join context_separator (map context_part [section17_parent, section17_child])
   \<and> length (context_part section17_parent) \<le> 150"
proof -
  let ?cs = "[section17_parent, section17_child]"
  note t = context_is_prefix_of_blocks [of 150 ?cs 1]
  note u = context_is_prefix_of_blocks [of context_limit ?cs]
  have l: "length (context_part section17_parent) \<le> 150" by code_simp
  have ne: "?cs \<noteq> []" by simp
  have "startswith (build_context 150 ?cs) (context_part (hd ?cs))"
    using t [THEN conjunct2, THEN conjunct2, THEN conjunct2, THEN conjunct2, THEN conjunct1,
        THEN mp, OF ne] l
    by simp
  then have a: "startswith (build_context 150 ?cs) (context_part section17_parent)" by simp
  have b: "length (build_context 150 ?cs) \<le> 150"
    by (rule t [THEN conjunct2, THEN conjunct1])
  have f: "length (join context_separator (map context_part ?cs)) \<le> context_limit"
    by code_simp
  have c: "build_context context_limit ?cs = join context_separator (map context_part ?cs)"
    by (rule u [THEN conjunct2, THEN conjunct2, THEN conjunct1, THEN mp, OF f])
  show ?thesis by (intro conjI a b c l)
qed

text \<open>
  The only chunk of a context, and so the top-ranked one, is cut in the middle when its
  block is longer than the limit.
\<close>

theorem context_cuts_top_chunk:
  "\<not> startswith (build_context context_limit [oversize_chunk]) (context_part oversize_chunk)
   \<and> length (build_context context_limit [oversize_chunk]) = 6000
   \<and> 7000 \<le> length (context_part oversize_chunk)"
proof -
  have "length (cc_text oversize_chunk) = 7000" by (simp add: oversize_chunk_def)
  then have c: "7000 \<le> length (context_part oversize_chunk)"
    using context_part_length [of oversize_chunk] by simp
  then have "\<not> length (context_part oversize_chunk) \<le> context_limit"
    by (simp add: context_limit_def)
  then have a: "\<not> startswith (build_context context_limit [oversize_chunk])
                   (context_part oversize_chunk)"
    using first_block_whole_iff [of context_limit oversize_chunk "[]"] by simp
  have b: "length (build_context context_limit [oversize_chunk]) = 6000"
    using c by (simp add: build_context_def context_limit_def)
  show ?thesis by (intro conjI a b c)
qed

section \<open>Properties of the query pipeline\<close>

lemma section_path_Inr:
  assumes "section_path store vs llm q num k = Inr r"
  shows "\<exists>hits.
           search_vectors vs q k = Inr hits
           \<and> generate_answer llm q (get_chunk_details store (direct_section_lookup store num k))
               = Inr \<lparr>answer = r_answer r, citations = r_citations r\<rparr>
           \<and> retrieved_chunks r
               = format_chunks Map.empty (Some Direct_lookup)
                   (get_chunk_details store (direct_section_lookup store num k))
                 @ format_chunks (score_map_of hits) (Some Supplementary)
                     (get_chunk_details store (map fst hits))
           \<and> direct_lookup_count r
               = Some (length (get_chunk_details store (direct_section_lookup store num k)))"
proof -
  let ?d = "get_chunk_details store (direct_section_lookup store num k)"
  obtain ar where ar: "generate_answer llm q ?d = Inr ar"
    using assms unfolding section_path_def Let_def
    by (cases "generate_answer llm q ?d") auto
  obtain hits where hits: "search_vectors vs q k = Inr hits"
    using assms ar unfolding section_path_def Let_def
    by (cases "search_vectors vs q k") auto
  have r: "r = \<lparr>r_answer = answer ar, r_citations = citations ar,
                 retrieved_chunks = format_chunks Map.empty (Some Direct_lookup) ?d
                   @ format_chunks (score_map_of hits) (Some Supplementary)
                       (get_chunk_details store (map fst hits)),
                 direct_lookup_count = Some (length (format_chunks Map.empty (Some Direct_lookup) ?d)),
                 supplementary_count = Some (length (format_chunks (score_map_of hits)
                   (Some Supplementary) (get_chunk_details store (map fst hits))))\<rparr>"
    using assms ar hits unfolding section_path_def Let_def by simp
  have "generate_answer llm q ?d = Inr \<lparr>answer = r_answer r, citations = r_citations r\<rparr>"
    using ar r by simp
  moreover have "direct_lookup_count r = Some (length ?d)"
    using r by (simp add: format_chunks_def)
  ultimately show ?thesis using hits r by auto
qed

lemma definition_path_Inr:
  assumes "definition_path U store llm q term = Inr r"
  shows "generate_answer llm q (get_chunk_details store (direct_definition_lookup U store term))
           = Inr \<lparr>answer = r_answer r, citations = r_citations r\<rparr>
         \<and> retrieved_chunks r
             = format_chunks Map.empty None
                 (get_chunk_details store (direct_definition_lookup U store term))"
proof -
  let ?d = "get_chunk_details store (direct_definition_lookup U store term)"
  obtain ar where ar: "generate_answer llm q ?d = Inr ar"
    using assms unfolding definition_path_def Let_def
    by (cases "generate_answer llm q ?d") auto
  then have "r = \<lparr>r_answer = answer ar, r_citations = citations ar,
                   retrieved_chunks = format_chunks Map.empty None ?d,
                   direct_lookup_count = None, supplementary_count = None\<rparr>"
    using assms unfolding definition_path_def Let_def by simp
  then show ?thesis using ar by simp
qed

lemma generate_answer_Inr:
  "generate_answer llm q cs = Inr ar \<longleftrightarrow>
     llm q (build_context context_limit cs) = Some (answer ar)
     \<and> citations ar = map citation_of cs"
  unfolding generate_answer_def generation_failed_def
  by (cases "llm q (build_context context_limit cs)") auto

text \<open>
  C2. The answer and the citations of a section query are those generated from the details
  of the chunks of the direct lookup: the language model is given the context built from
  these chunks alone, the chunks of the vector search only follow them in
  \<open>retrieved_chunks\<close>, and two runs with different vector stores return the same answer,
  the same citations and the same direct chunks. A definition query does not call the vector
  search at all, and its whole response is the same with any vector store.
\<close>

theorem answer_from_direct_lookup_alone:
  "(classify U q = Section num \<longrightarrow> query U store vs llm q k = Inr r \<longrightarrow>
      llm q (build_context context_limit
               (get_chunk_details store (direct_section_lookup store num k)))
        = Some (r_answer r)
      \<and> r_citations r
          = map citation_of (get_chunk_details store (direct_section_lookup store num k))
      \<and> (\<exists>hits. search_vectors vs q k = Inr hits
            \<and> retrieved_chunks r
                = format_chunks Map.empty (Some Direct_lookup)
                    (get_chunk_details store (direct_section_lookup store num k))
                  @ format_chunks (score_map_of hits) (Some Supplementary)
                      (get_chunk_details store (map fst hits)))
      \<and> (\<forall>vs' r'. query U store vs' llm q k = Inr r' \<longrightarrow>
            r_answer r' = r_answer r \<and> r_citations r' = r_citations r
            \<and> direct_lookup_count r' = direct_lookup_count r
            \<and> take (the (direct_lookup_count r)) (retrieved_chunks r')
                = take (the (direct_lookup_count r)) (retrieved_chunks r)))
   \<and> (classify U q = Definition term \<longrightarrow>
        query U store vs llm q k = query U store vs' llm q k
        \<and> (query U store vs llm q k = Inr r \<longrightarrow>
             llm q (build_context context_limit
                      (get_chunk_details store (direct_definition_lookup U store term)))
               = Some (r_answer r)
             \<and> r_citations r
                 = map citation_of
                     (get_chunk_details store (direct_definition_lookup U store term))
             \<and> retrieved_chunks r
                 = format_chunks Map.empty None
                     (get_chunk_details store (direct_definition_lookup U store term))))"
proof (intro conjI impI)
  assume c: "classify U q = Section num" and r: "query U store vs llm q k = Inr r"
  let ?d = "get_chunk_details store (direct_section_lookup store num k)"
  have sp: "section_path store vs llm q num k = Inr r"
    using c r by (simp add: query_def)
  from section_path_Inr [OF sp] obtain hits where
    h: "search_vectors vs q k = Inr hits"
    and g: "generate_answer llm q ?d = Inr \<lparr>answer = r_answer r, citations = r_citations r\<rparr>"
    and rc: "retrieved_chunks r
               = format_chunks Map.empty (Some Direct_lookup) ?d
                 @ format_chunks (score_map_of hits) (Some Supplementary)
                     (get_chunk_details store (map fst hits))"
    and dc: "direct_lookup_count r = Some (length ?d)"
    by blast
  show "llm q (build_context context_limit ?d) = Some (r_answer r)"
    using g by (simp add: generate_answer_Inr)
  show "r_citations r = map citation_of ?d"
    using g by (simp add: generate_answer_Inr)
  show "\<exists>hits. search_vectors vs q k = Inr hits
            \<and> retrieved_chunks r
                = format_chunks Map.empty (Some Direct_lookup) ?d
                  @ format_chunks (score_map_of hits) (Some Supplementary)
                      (get_chunk_details store (map fst hits))"
    using h rc by blast
  show "\<forall>vs' r'. query U store vs' llm q k = Inr r' \<longrightarrow>
            r_answer r' = r_answer r \<and> r_citations r' = r_citations r
            \<and> direct_lookup_count r' = direct_lookup_count r
            \<and> take (the (direct_lookup_count r)) (retrieved_chunks r')
                = take (the (direct_lookup_count r)) (retrieved_chunks r)"
  proof (intro allI impI)
    fix vs' r'
    assume "query U store vs' llm q k = Inr r'"
    then have sp': "section_path store vs' llm q num k = Inr r'"
      using c by (simp add: query_def)
    from section_path_Inr [OF sp'] obtain hits' where
      g': "generate_answer llm q ?d = Inr \<lparr>answer = r_answer r', citations = r_citations r'\<rparr>"
      and rc': "retrieved_chunks r'
               = format_chunks Map.empty (Some Direct_lookup) ?d
                 @ format_chunks (score_map_of hits') (Some Supplementary)
                     (get_chunk_details store (map fst hits'))"
      and dc': "direct_lookup_count r' = Some (length ?d)"
      by blast
    have len: "length (format_chunks Map.empty (Some Direct_lookup) ?d) = length ?d"
      by (simp add: format_chunks_def)
    show "r_answer r' = r_answer r \<and> r_citations r' = r_citations r
            \<and> direct_lookup_count r' = direct_lookup_count r
            \<and> take (the (direct_lookup_count r)) (retrieved_chunks r')
                = take (the (direct_lookup_count r)) (retrieved_chunks r)"
      using g g' dc dc' rc rc' len by simp
  qed
next
  assume c: "classify U q = Definition term"
  show "query U store vs llm q k = query U store vs' llm q k"
    using c by (simp add: query_def)
next
  assume c: "classify U q = Definition term" and r: "query U store vs llm q k = Inr r"
  let ?d = "get_chunk_details store (direct_definition_lookup U store term)"
  have dp: "definition_path U store llm q term = Inr r"
    using c r by (simp add: query_def)
  note d = definition_path_Inr [OF dp]
  show "llm q (build_context context_limit ?d) = Some (r_answer r)"
    using d by (simp add: generate_answer_Inr)
  show "r_citations r = map citation_of ?d"
    using d by (simp add: generate_answer_Inr)
  show "retrieved_chunks r = format_chunks Map.empty None ?d"
    using d by simp
qed

lemma section17_direct_details:
  "get_chunk_details [section17_child, section17_parent]
     (direct_section_lookup [section17_child, section17_parent] (ascii ''017'') 15)
   = [section17_child, section17_parent]"
  by code_simp

lemma section17_supplementary_details:
  "get_chunk_details [section17_child, section17_parent] [ascii ''ca2013_act_s017_c01'']
   = [section17_child]"
  by code_simp

lemma classify_explain_section_17:
  "classify latin1_tables (ascii ''Explain Section 17'') = Section (ascii ''017'')"
  by code_simp

lemma query_section17:
  assumes "search_vectors vs (ascii ''Explain Section 17'') 15
             = Inr [(ascii ''ca2013_act_s017_c01'', s)]"
  shows "query latin1_tables [section17_child, section17_parent] vs echo_llm
           (ascii ''Explain Section 17'') 15
     = Inr \<lparr>r_answer = build_context context_limit [section17_child, section17_parent],
            r_citations = map citation_of [section17_child, section17_parent],
            retrieved_chunks =
              format_chunks Map.empty (Some Direct_lookup) [section17_child, section17_parent]
              @ format_chunks (score_map_of [(ascii ''ca2013_act_s017_c01'', s)])
                  (Some Supplementary) [section17_child],
            direct_lookup_count = Some 2, supplementary_count = Some 1\<rparr>"
  unfolding query_def classify_explain_section_17 intent.case section_path_def
    section17_direct_details Let_def assms
  by (simp add: generate_answer_def generation_failed_def echo_llm_def section17_supplementary_details
      format_chunks_def)

theorem answer_from_direct_lookup_alone_witness:
  "r_answer (projr (query latin1_tables [section17_child, section17_parent] far_store
               echo_llm (ascii ''Explain Section 17'') 15))
     = r_answer (projr (query latin1_tables [section17_child, section17_parent] near_store
               echo_llm (ascii ''Explain Section 17'') 15))
   \<and> r_answer (projr (query latin1_tables [section17_child, section17_parent] near_store
               echo_llm (ascii ''Explain Section 17'') 15))
     = build_context context_limit [section17_child, section17_parent]
   \<and> isl (query latin1_tables [section17_child, section17_parent] near_store echo_llm
               (ascii ''Explain Section 17'') 15) = False
   \<and> isl (query latin1_tables [section17_child, section17_parent] far_store echo_llm
               (ascii ''Explain Section 17'') 15) = False
   \<and> query latin1_tables [section2_child, section2_parent] near_store echo_llm
        (ascii ''What is the definition of memorandum?'') 15
     = query latin1_tables [section2_child, section2_parent] far_store echo_llm
        (ascii ''What is the definition of memorandum?'') 15"
proof -
  let ?st = "[section17_child, section17_parent]"
  let ?q = "ascii ''Explain Section 17''"
  let ?D = "[section17_child, section17_parent]"
  let ?R = "\<lambda>s. \<lparr>r_answer = build_context context_limit ?D,
            r_citations = map citation_of ?D,
            retrieved_chunks =
              format_chunks Map.empty (Some Direct_lookup) ?D
              @ format_chunks (score_map_of [(ascii ''ca2013_act_s017_c01'', s)])
                  (Some Supplementary) [section17_child],
            direct_lookup_count = Some 2, supplementary_count = Some 1\<rparr>"
  have n: "query latin1_tables ?st near_store echo_llm ?q 15 = Inr (?R (3 / 4))"
    by (rule query_section17 [OF search_near_store])
  have f: "query latin1_tables ?st far_store echo_llm ?q 15 = Inr (?R (- (1 / 2)))"
    by (rule query_section17 [OF search_far_store])
  note t = answer_from_direct_lookup_alone [of latin1_tables ?q "ascii ''017''" ?st near_store
      echo_llm 15 "?R (3 / 4)",
      THEN conjunct1, THEN mp, OF classify_explain_section_17, THEN mp, OF n]
  have "r_answer (?R (- (1 / 2))) = r_answer (?R (3 / 4))"
    using t [THEN conjunct2, THEN conjunct2, THEN conjunct2, rule_format, OF f, THEN conjunct1] .
  then have a: "r_answer (projr (query latin1_tables ?st far_store echo_llm ?q 15))
                  = r_answer (projr (query latin1_tables ?st near_store echo_llm ?q 15))"
    unfolding n f sum.sel .
  have "echo_llm ?q (build_context context_limit
          (get_chunk_details ?st (direct_section_lookup ?st (ascii ''017'') 15)))
        = Some (r_answer (?R (3 / 4)))"
    by (rule t [THEN conjunct1])
  then have b: "r_answer (projr (query latin1_tables ?st near_store echo_llm ?q 15))
                  = build_context context_limit ?D"
    unfolding n sum.sel by simp
  have c: "isl (query latin1_tables ?st near_store echo_llm ?q 15) = False" unfolding n by simp
  have d: "isl (query latin1_tables ?st far_store echo_llm ?q 15) = False" unfolding f by simp
  have k: "classify latin1_tables (ascii ''What is the definition of memorandum?'')
             = Definition (ascii ''memorandum'')"
    by code_simp
  have e: "query latin1_tables [section2_child, section2_parent] near_store echo_llm
        (ascii ''What is the definition of memorandum?'') 15
     = query latin1_tables [section2_child, section2_parent] far_store echo_llm
        (ascii ''What is the definition of memorandum?'') 15"
    by (rule answer_from_direct_lookup_alone [THEN conjunct2, THEN mp, OF k, THEN conjunct1])
  show ?thesis by (intro conjI a b c d e)
qed

section \<open>The vector search when the embedding call fails\<close>

lemma classify_General: "classify U q = General q' \<Longrightarrow> q' = q"
  unfolding classify_def definition_intent_def by (auto split: if_splits option.splits)

lemma search_vectors_embed_None: "embed vs q = None \<Longrightarrow> search_vectors vs q k = Inr []"
  by (simp add: search_vectors_def embedding_unavailable_def)

lemma get_chunk_details_Nil: "get_chunk_details store [] = []"
  by (simp add: get_chunk_details_def)

lemma generate_answer_not_IndexError: "generate_answer llm q cs \<noteq> Inl IndexError"
  unfolding generate_answer_def generation_failed_def by (simp split: option.splits)

lemma query_embed_None:
  assumes "embed vs q = None"
  shows "query U store vs llm q k \<noteq> Inl IndexError"
proof (cases "classify U q")
  case (Definition trm)
  then show ?thesis
    using generate_answer_not_IndexError
    by (auto simp: query_def definition_path_def Let_def split: sum.splits)
next
  case (Section num)
  then show ?thesis
    using generate_answer_not_IndexError search_vectors_embed_None [OF assms]
    by (auto simp: query_def section_path_def Let_def split: sum.splits)
next
  case (General q')
  then have "q' = q" by (rule classify_General)
  then show ?thesis
    using General generate_answer_not_IndexError search_vectors_embed_None [OF assms]
    by (auto simp: query_def general_path_def Let_def split: sum.splits)
qed

text \<open>
  C8. When the embedding call fails, the vector search returns the empty list and no error.
  A section query is then answered from the chunks of its direct lookup, with no
  supplementary chunk; a general query goes on with an empty evidence set; and the query
  does not fail with an error of the vector search.
\<close>

theorem embedding_failure_gives_empty_result:
  "embed vs q = None \<longrightarrow>
     search_vectors vs q k = Inr []
     \<and> query U store vs llm q k \<noteq> Inl IndexError
     \<and> (classify U q = Section num \<longrightarrow>
          llm q (build_context context_limit
                   (get_chunk_details store (direct_section_lookup store num k))) = Some a \<longrightarrow>
          query U store vs llm q k
            = Inr \<lparr>r_answer = a,
                   r_citations = map citation_of
                     (get_chunk_details store (direct_section_lookup store num k)),
                   retrieved_chunks = format_chunks Map.empty (Some Direct_lookup)
                     (get_chunk_details store (direct_section_lookup store num k)),
                   direct_lookup_count =
                     Some (length (get_chunk_details store (direct_section_lookup store num k))),
                   supplementary_count = Some 0\<rparr>)
     \<and> (classify U q = General q \<longrightarrow> llm q (build_context context_limit []) = Some a \<longrightarrow>
          query U store vs llm q k
            = Inr \<lparr>r_answer = a, r_citations = [], retrieved_chunks = [],
                   direct_lookup_count = None, supplementary_count = None\<rparr>)"
proof (intro impI conjI)
  assume e: "embed vs q = None"
  show s: "search_vectors vs q k = Inr []" using e by (rule search_vectors_embed_None)
  show "query U store vs llm q k \<noteq> Inl IndexError" using e by (rule query_embed_None)
  {
    assume c: "classify U q = Section num"
      and l: "llm q (build_context context_limit
                   (get_chunk_details store (direct_section_lookup store num k))) = Some a"
    show "query U store vs llm q k
            = Inr \<lparr>r_answer = a,
                   r_citations = map citation_of
                     (get_chunk_details store (direct_section_lookup store num k)),
                   retrieved_chunks = format_chunks Map.empty (Some Direct_lookup)
                     (get_chunk_details store (direct_section_lookup store num k)),
                   direct_lookup_count =
                     Some (length (get_chunk_details store (direct_section_lookup store num k))),
                   supplementary_count = Some 0\<rparr>"
      using c l s
      by (simp add: query_def section_path_def Let_def generate_answer_def generation_failed_def
          get_chunk_details_Nil format_chunks_def)
  }
  {
    assume c: "classify U q = General q"
      and l: "llm q (build_context context_limit []) = Some a"
    show "query U store vs llm q k
            = Inr \<lparr>r_answer = a, r_citations = [], retrieved_chunks = [],
                   direct_lookup_count = None, supplementary_count = None\<rparr>"
      using c l s
      by (simp add: query_def general_path_def Let_def generate_answer_def generation_failed_def
          get_chunk_details_Nil format_chunks_def)
  }
qed

theorem embedding_failure_gives_empty_result_witness:
  "search_vectors down_store (ascii ''Explain Section 17'') 15 = Inr []
   \<and> query latin1_tables [section17_child, section17_parent] down_store echo_llm
       (ascii ''Explain Section 17'') 15
       = Inr \<lparr>r_answer = build_context context_limit [section17_child, section17_parent],
              r_citations = map citation_of [section17_child, section17_parent],
              retrieved_chunks = format_chunks Map.empty (Some Direct_lookup)
                [section17_child, section17_parent],
              direct_lookup_count = Some 2, supplementary_count = Some 0\<rparr>"
proof -
  let ?st = "[section17_child, section17_parent]"
  let ?q = "ascii ''Explain Section 17''"
  have e: "embed down_store ?q = None" by (simp add: down_store_def)
  have l: "echo_llm ?q (build_context context_limit
             (get_chunk_details ?st (direct_section_lookup ?st (ascii ''017'') 15)))
           = Some (build_context context_limit ?st)"
    unfolding section17_direct_details by (simp add: echo_llm_def)
  note t = embedding_failure_gives_empty_result [of down_store ?q 15 latin1_tables ?st echo_llm
      "ascii ''017''" "build_context context_limit ?st", THEN mp, OF e]
  have a: "search_vectors down_store ?q 15 = Inr []" by (rule t [THEN conjunct1])
  have b: "query latin1_tables ?st down_store echo_llm ?q 15
       = Inr \<lparr>r_answer = build_context context_limit ?st,
              r_citations = map citation_of ?st,
              retrieved_chunks = format_chunks Map.empty (Some Direct_lookup) ?st,
              direct_lookup_count = Some 2, supplementary_count = Some 0\<rparr>"
    using t [THEN conjunct2, THEN conjunct2, THEN conjunct1, THEN mp,
        OF classify_explain_section_17, THEN mp, OF l]
    unfolding section17_direct_details by simp
  show ?thesis by (intro conjI a b)
qed

section \<open>Properties of the refusal policy\<close>










section \<open>The identity invariant\<close>

lemma consistency_iff:
  "parent_child_consistency r \<longleftrightarrow>
     (ci_chunk_role r = Parent \<longleftrightarrow> ci_parent_chunk_id r = None)
     \<and> (ci_chunk_role r = Child \<longleftrightarrow> ci_parent_chunk_id r \<noteq> None)"
  unfolding parent_child_consistency_def by (cases "ci_chunk_role r") auto

lemma identity_invariant_iff:
  "identity_invariant tbl \<longleftrightarrow> (\<forall>r\<in>set tbl. parent_child_consistency r)"
  unfolding identity_invariant_def consistency_iff ..

lemma insert_row_invariant:
  "identity_invariant tbl \<Longrightarrow> insert_row r tbl = Inr tbl' \<Longrightarrow> identity_invariant tbl'"
  unfolding identity_invariant_iff insert_row_def
  by (auto split: if_splits)

lemma update_row_invariant:
  "identity_invariant tbl \<Longrightarrow> update_row cid r tbl = Inr tbl' \<Longrightarrow> identity_invariant tbl'"
  unfolding identity_invariant_iff update_row_def
  by (auto simp: Let_def split: if_splits)

lemma delete_row_invariant:
  "identity_invariant tbl \<Longrightarrow> delete_row cid tbl = Inr tbl' \<Longrightarrow> identity_invariant tbl'"
  unfolding identity_invariant_iff delete_row_def
  by (auto simp: Let_def split: if_splits)

lemma apply_write_invariant:
  "identity_invariant tbl \<Longrightarrow> apply_write w tbl = Inr tbl' \<Longrightarrow> identity_invariant tbl'"
  by (cases w) (auto intro: insert_row_invariant update_row_invariant delete_row_invariant)

lemma exec_write_invariant: "identity_invariant tbl \<Longrightarrow> identity_invariant (exec_write w tbl)"
  unfolding exec_write_def
  by (cases "apply_write w tbl") (auto intro: apply_write_invariant)

lemma exec_writes_invariant: "identity_invariant tbl \<Longrightarrow> identity_invariant (exec_writes ws tbl)"
  unfolding exec_writes_def
  by (induction ws arbitrary: tbl) (auto intro: exec_write_invariant)

text \<open>
  C9. Every row of \<^verbatim>\<open>chunks_identity\<close> is a parent exactly when its parent id is NULL
  and a child exactly when it is not: the invariant holds of the empty table, every
  statement that writes the table keeps it, and so it holds after any sequence of writes.
  A row that breaks it is refused by the \<^verbatim>\<open>CHECK\<close> constraint.
\<close>

theorem identity_invariant_preserved:
  "identity_invariant (exec_writes ws [])
   \<and> (identity_invariant tbl \<longrightarrow> apply_write w tbl = Inr tbl' \<longrightarrow> identity_invariant tbl')
   \<and> (identity_invariant tbl \<longrightarrow> r \<in> set tbl \<longrightarrow>
        (ci_chunk_role r = Parent \<longleftrightarrow> ci_parent_chunk_id r = None)
        \<and> (ci_chunk_role r = Child \<longleftrightarrow> ci_parent_chunk_id r \<noteq> None))
   \<and> (\<not> parent_child_consistency r \<longrightarrow> apply_write (Insert r) tbl = Inl Check_violation)"
proof (intro conjI impI)
  have "identity_invariant []" by (simp add: identity_invariant_def)
  then show "identity_invariant (exec_writes ws [])" by (rule exec_writes_invariant)
next
  assume "identity_invariant tbl" "apply_write w tbl = Inr tbl'"
  then show "identity_invariant tbl'" by (rule apply_write_invariant)
next
  assume h: "identity_invariant tbl" "r \<in> set tbl"
  then show "ci_chunk_role r = Parent \<longleftrightarrow> ci_parent_chunk_id r = None"
    unfolding identity_invariant_def by blast
  from h show "ci_chunk_role r = Child \<longleftrightarrow> ci_parent_chunk_id r \<noteq> None"
    unfolding identity_invariant_def by blast
next
  assume "\<not> parent_child_consistency r"
  then show "apply_write (Insert r) tbl = Inl Check_violation"
    by (simp add: insert_row_def)
qed

theorem identity_invariant_preserved_witness:
  "exec_writes [Insert identity_parent, Insert identity_rejected, Insert identity_child] []
     = [identity_parent, identity_child]
   \<and> identity_invariant
        (exec_writes [Insert identity_parent, Insert identity_rejected, Insert identity_child] [])
   \<and> identity_invariant [identity_parent, identity_child]
   \<and> ci_chunk_role identity_child = Child \<and> ci_parent_chunk_id identity_child \<noteq> None
   \<and> ci_chunk_role identity_parent = Parent \<and> ci_parent_chunk_id identity_parent = None
   \<and> apply_write (Insert identity_rejected) [identity_parent] = Inl Check_violation"
proof -
  let ?ws = "[Insert identity_parent, Insert identity_rejected, Insert identity_child]"
  have e: "exec_writes ?ws [] = [identity_parent, identity_child]"
    by code_simp
  have i0: "identity_invariant [identity_parent]"
    by code_simp
  have a: "apply_write (Insert identity_child) [identity_parent] = Inr [identity_parent, identity_child]"
    by code_simp
  have n: "\<not> parent_child_consistency identity_rejected"
    by code_simp
  have m: "identity_child \<in> set [identity_parent, identity_child]"
    and m': "identity_parent \<in> set [identity_parent, identity_child]" by simp_all
  note t = identity_invariant_preserved
  have i1: "identity_invariant (exec_writes ?ws [])"
    using t [of ?ws] by blast
  have i2: "identity_invariant [identity_parent, identity_child]"
    using t [of ?ws "[identity_parent]" "Insert identity_child" "[identity_parent, identity_child]"]
      i0 a by blast
  have r1: "ci_chunk_role identity_child = Child \<and> ci_parent_chunk_id identity_child \<noteq> None"
    using t [of ?ws "[identity_parent, identity_child]" _ _ identity_child] i2 m
    by (simp add: identity_child_def)
  have r2: "ci_chunk_role identity_parent = Parent \<and> ci_parent_chunk_id identity_parent = None"
    using t [of ?ws "[identity_parent, identity_child]" _ _ identity_parent] i2 m'
    by (simp add: identity_parent_def)
  have r3: "apply_write (Insert identity_rejected) [identity_parent] = Inl Check_violation"
    using t [of ?ws "[identity_parent]" _ _ identity_rejected] n by blast
  show ?thesis using e i1 i2 r1 r2 r3 by blast
qed

section \<open>Properties of the response\<close>



end
